theory Spec2Isabelle
  imports Complex_Main "HOL-Library.Char_ord" "HOL-Library.List_Lexorder"
    "HOL-Library.Product_Lexorder"
begin

section \<open>Strings\<close>

text \<open>
  A Python \<open>str\<close> is modelled as a \<open>string\<close>; a \<open>char\<close> stands for a code point
  below 256, so \<open>length\<close> is Python's \<open>len\<close> and the order of \<open>Char_ord\<close> and
  \<open>List_Lexorder\<close> is Python's comparison of strings.
\<close>

definition lower_char :: "char \<Rightarrow> char" where
  "lower_char c =
     (let n = of_char c :: nat
      in if (65 \<le> n \<and> n \<le> 90) \<or> (192 \<le> n \<and> n \<le> 222 \<and> n \<noteq> 215)
         then char_of (n + 32) else c)"

definition lower :: "string \<Rightarrow> string" where
  "lower s = map lower_char s"

text \<open>
  \<open>str.upper\<close>: the sharp s becomes two letters; the images of the two code points
  whose upper case lies beyond 255 (181 and 255) are no ASCII letters, and they are
  left as they are: \<open>upper\<close> is only used to look for an ASCII word.
\<close>

definition upper_char :: "char \<Rightarrow> string" where
  "upper_char c =
     (let n = of_char c :: nat
      in if n = 223 then ''SS''
         else if (97 \<le> n \<and> n \<le> 122) \<or> (224 \<le> n \<and> n \<le> 254 \<and> n \<noteq> 247)
         then [char_of (n - 32)] else [c])"

definition upper :: "string \<Rightarrow> string" where
  "upper s = concat (map upper_char s)"

text \<open>\<open>str.isspace\<close> on the code points below 256.\<close>

definition is_space :: "char \<Rightarrow> bool" where
  "is_space c =
     (let n = of_char c :: nat
      in (9 \<le> n \<and> n \<le> 13) \<or> (28 \<le> n \<and> n \<le> 32) \<or> n = 133 \<or> n = 160)"

text \<open>\<open>s.strip()\<close> and \<open>s.strip(chars)\<close>: drop at both ends while the predicate holds.\<close>

definition rstrip_with :: "(char \<Rightarrow> bool) \<Rightarrow> string \<Rightarrow> string" where
  "rstrip_with P s = rev (dropWhile P (rev s))"

definition strip_with :: "(char \<Rightarrow> bool) \<Rightarrow> string \<Rightarrow> string" where
  "strip_with P s = rstrip_with P (dropWhile P s)"

text \<open>\<open>s.split(sep)\<close> for a separator of one character: at least one part.\<close>

fun split_on :: "char \<Rightarrow> string \<Rightarrow> string list" where
  "split_on c [] = [[]]"
| "split_on c (x # xs) =
     (if x = c then [] # split_on c xs
      else (case split_on c xs of
              [] \<Rightarrow> [[x]]
            | p # ps \<Rightarrow> (x # p) # ps))"

lemma split_on_not_Nil: "split_on c s \<noteq> []"
  by (induction s) (auto split: list.splits)

text \<open>\<open>p in s\<close> for strings, \<open>s.startswith(p)\<close> and \<open>s.endswith(p)\<close>.\<close>

fun startswith :: "string \<Rightarrow> string \<Rightarrow> bool" where
  "startswith s [] = True"
| "startswith [] (p # ps) = False"
| "startswith (x # xs) (p # ps) = (x = p \<and> startswith xs ps)"

definition endswith :: "string \<Rightarrow> string \<Rightarrow> bool" where
  "endswith s p = startswith (rev s) (rev p)"

fun contains :: "string \<Rightarrow> string \<Rightarrow> bool" where
  "contains [] p = (p = [])"
| "contains (x # xs) p = (startswith (x # xs) p \<or> contains xs p)"

text \<open>\<open>str(n)\<close> for a natural number, as the f-strings of the probe print a code.\<close>

definition digit_char :: "nat \<Rightarrow> char" where
  "digit_char n = char_of (48 + n)"

function str_nat :: "nat \<Rightarrow> string" where
  "str_nat n = (if n < 10 then [digit_char n] else str_nat (n div 10) @ [digit_char (n mod 10)])"
  by pat_completeness auto
termination
  by (relation "measure id") auto

declare str_nat.simps [simp del]

text \<open>The truth value of a string and of an optional string (\<open>None\<close> and \<open>""\<close> are false).\<close>

definition truthy :: "string option \<Rightarrow> bool" where
  "truthy v = (case v of None \<Rightarrow> False | Some s \<Rightarrow> s \<noteq> [])"

section \<open>Configuration and tables\<close>

record config =
  ALLOW_SMTP_PROBE :: bool
  PROBE_BLOCKED :: bool
  DEFAULT_TIMEOUT :: real
  PROBE_MAIL_FROM :: string
  ACCEPT_ALL_PROBES :: int

definition DISPOSABLE_DOMAINS :: "string list" where
  "DISPOSABLE_DOMAINS =
     [''mailinator.com'', ''10minutemail.com'', ''tempmail.com'', ''guerrillamail.com'',
      ''yopmail.com'', ''trashmail.com'']"

definition ROLE_ACCOUNTS :: "string list" where
  "ROLE_ACCOUNTS =
     [''admin'', ''administrator'', ''support'', ''info'', ''hello'', ''sales'', ''contact'',
      ''billing'', ''accounts'', ''noreply'', ''no-reply'', ''security'', ''abuse'',
      ''postmaster'']"

definition FREE_PROVIDERS :: "string list" where
  "FREE_PROVIDERS =
     [''gmail.com'', ''googlemail.com'', ''yahoo.com'', ''ymail.com'', ''outlook.com'',
      ''hotmail.com'', ''live.com'', ''icloud.com'', ''me.com'', ''aol.com'', ''proton.me'',
      ''zoho.com'', ''gmx.com'', ''mail.com'']"

definition SMTP_BLOCKLIST_PROVIDERS :: "(string \<times> string) list" where
  "SMTP_BLOCKLIST_PROVIDERS =
     [(''gmail.com'', ''Google Workspace/Gmail''),
      (''googlemail.com'', ''Google Workspace/Gmail''),
      (''outlook.com'', ''Microsoft 365/Outlook''),
      (''hotmail.com'', ''Microsoft 365/Hotmail''),
      (''live.com'', ''Microsoft 365/Live''),
      (''office365.com'', ''Microsoft 365''),
      (''microsoft.com'', ''Microsoft 365''),
      (''yahoo.com'', ''Yahoo''),
      (''proton.me'', ''Proton''),
      (''icloud.com'', ''Apple iCloud''),
      (''me.com'', ''Apple iCloud''),
      (''aol.com'', ''AOL'')]"

text \<open>\<open>sorted(FREE_PROVIDERS | {...})\<close>: the union of two sets, as a sorted list.\<close>

definition COMMON_DOMAINS :: "string list" where
  "COMMON_DOMAINS =
     sort (remdups (FREE_PROVIDERS @
       [''gmail.co'', ''gamil.com'', ''gnail.com'', ''gmai.com'', ''yhoo.com'', ''yahoo.co'',
        ''hotnail.com'', ''outlok.com'', ''icloud.co'', ''me.co'', ''protonmail.com'', ''pm.me'',
        ''zoho.in'', ''gmx.de'', ''mail.ru'']))"

section \<open>Normalisation and the syntax check\<close>

text \<open>\<open>email.strip().strip('";').replace(" ", "")\<close>\<close>

definition normalize :: "string \<Rightarrow> string" where
  "normalize email =
     filter (\<lambda>c. c \<noteq> CHR '' '')
       (strip_with (\<lambda>c. c = CHR 0x22 \<or> c = CHR '';'') (strip_with is_space email))"

text \<open>
  \<open>EMAIL_REGEX\<close>. The two character classes, then the two groups: a local part of
  one or more non-empty atoms joined by dots, and a domain of two or more non-empty
  labels joined by dots.
\<close>

definition is_alnum :: "char \<Rightarrow> bool" where
  "is_alnum c =
     (let n = of_char c :: nat
      in (48 \<le> n \<and> n \<le> 57) \<or> (65 \<le> n \<and> n \<le> 90) \<or> (97 \<le> n \<and> n \<le> 122))"

definition atom_char :: "char \<Rightarrow> bool" where
  "atom_char c = (is_alnum c \<or> c \<in> set (CHR 0x27 # ''!#$%&*+/=?^_{|}~-'') \<or> c = CHR 0x60)"

definition label_char :: "char \<Rightarrow> bool" where
  "label_char c = (is_alnum c \<or> c = CHR ''-'')"

definition dotted :: "(char \<Rightarrow> bool) \<Rightarrow> string \<Rightarrow> bool" where
  "dotted P s = list_all (\<lambda>part. part \<noteq> [] \<and> list_all P part) (split_on CHR ''.'' s)"

definition regex_local :: "string \<Rightarrow> bool" where
  "regex_local s = dotted atom_char s"

definition regex_domain :: "string \<Rightarrow> bool" where
  "regex_domain s = (dotted label_char s \<and> 2 \<le> length (split_on CHR ''.'' s))"

text \<open>
  \<open>^local@domain$\<close> on the whole string: no class holds \<open>@\<close>, so the local part ends
  at the first \<open>@\<close> and the domain is all that follows it.
\<close>

definition regex_exact :: "string \<Rightarrow> (string \<times> string) option" where
  "regex_exact s =
     (let loc = takeWhile (\<lambda>c. c \<noteq> CHR ''@'') s;
          rest = dropWhile (\<lambda>c. c \<noteq> CHR ''@'') s
      in case rest of
           [] \<Rightarrow> None
         | _ # domn \<Rightarrow> if regex_local loc \<and> regex_domain domn then Some (loc, domn) else None)"

text \<open>
  \<open>EMAIL_REGEX.match\<close>: Python's \<open>$\<close> also matches just before a newline that ends
  the string.
\<close>

definition regex_match :: "string \<Rightarrow> (string \<times> string) option" where
  "regex_match s =
     (case regex_exact s of
        Some g \<Rightarrow> Some g
      | None \<Rightarrow> if s \<noteq> [] \<and> last s = CHR 0x0A then regex_exact (butlast s) else None)"

text \<open>
  \<open>check_syntax\<close>. The parser of the \<open>email_validator\<close> package is no code of this
  repository: it is the parameter \<open>validate_email\<close>, which gives the local part and
  the domain of the address, or \<open>None\<close> where the package raises
  \<open>EmailNotValidError\<close>.
\<close>

definition check_syntax ::
  "(string \<Rightarrow> (string \<times> string) option) \<Rightarrow> string \<Rightarrow> bool \<times> string option \<times> string option"
where
  "check_syntax validate_email email =
     (case validate_email email of
        Some (local_part, domn) \<Rightarrow> (True, Some local_part, Some domn)
      | None \<Rightarrow>
          (case regex_match email of
             Some (loc, domn) \<Rightarrow> (True, Some loc, Some domn)
           | None \<Rightarrow> (False, None, None)))"

section \<open>Classifiers\<close>

definition is_disposable :: "string \<Rightarrow> bool" where
  "is_disposable domn = (lower domn \<in> set DISPOSABLE_DOMAINS)"

text \<open>\<open>local.split("+")[0].split(".")[0].lower()\<close>: \<open>split\<close> gives at least one part.\<close>

definition is_role_account :: "string \<Rightarrow> bool" where
  "is_role_account loc =
     (let root = lower (hd (split_on CHR ''.'' (hd (split_on CHR ''+'' loc))))
      in root \<in> set ROLE_ACCOUNTS)"

fun blocklist_lookup :: "(string \<times> string) list \<Rightarrow> string \<Rightarrow> string option" where
  "blocklist_lookup [] d = None"
| "blocklist_lookup ((key, name) # rest) d =
     (if d = key \<or> endswith d (''.'' @ key) then Some name else blocklist_lookup rest d)"

definition provider_blocks_smtp :: "string \<Rightarrow> string option" where
  "provider_blocks_smtp domn = blocklist_lookup SMTP_BLOCKLIST_PROVIDERS (lower domn)"

section \<open>Typo suggestion\<close>

text \<open>
  \<open>difflib\<close> is Python's library, not code of this repository. Its
  \<open>SequenceMatcher\<close> is modelled here from CPython's \<open>difflib.py\<close>, for sequences
  with no junk: \<open>autojunk\<close> only acts on a second sequence of 200 elements or more,
  and \<open>get_close_matches\<close> computes \<open>ratio\<close> only after \<open>real_quick_ratio\<close>, which
  no word that long passes against \<open>COMMON_DOMAINS\<close> at the cutoff used.
\<close>

fun common_prefix_len :: "string \<Rightarrow> string \<Rightarrow> nat" where
  "common_prefix_len (x # xs) (y # ys) = (if x = y then Suc (common_prefix_len xs ys) else 0)"
| "common_prefix_len xs ys = 0"

text \<open>
  \<open>find_longest_match\<close>: the longest block \<open>a[i:i+k] == b[j:j+k]\<close>; of the blocks
  of that length the one that starts earliest in \<open>a\<close>, and of those the one that
  starts earliest in \<open>b\<close>.
\<close>

definition longer_match :: "string \<Rightarrow> string \<Rightarrow> nat \<Rightarrow> nat \<Rightarrow> nat \<times> nat \<times> nat \<Rightarrow> nat \<times> nat \<times> nat"
where
  "longer_match a b i j best =
     (let k = common_prefix_len (drop i a) (drop j b)
      in if snd (snd best) < k then (i, j, k) else best)"

definition find_longest_match :: "string \<Rightarrow> string \<Rightarrow> nat \<times> nat \<times> nat" where
  "find_longest_match a b =
     fold (\<lambda>i. fold (longer_match a b i) [0..<length b]) [0..<length a] (0, 0, 0)"

lemma fold_invariant:
  "P s \<Longrightarrow> (\<And>x t. x \<in> set xs \<Longrightarrow> P t \<Longrightarrow> P (f x t)) \<Longrightarrow> P (fold f xs s)"
  by (induction xs arbitrary: s) auto

lemma find_longest_match_start:
  assumes "find_longest_match a b = (i, j, k)" and "k \<noteq> 0"
  shows "i < length a"
proof -
  let ?P = "\<lambda>t :: nat \<times> nat \<times> nat. snd (snd t) = 0 \<or> fst t < length a"
  have "?P (find_longest_match a b)"
    unfolding find_longest_match_def
  proof (rule fold_invariant)
    show "?P (0, 0, 0)" by simp
  next
    fix x t assume x: "x \<in> set [0..<length a]" and t: "?P t"
    show "?P (fold (longer_match a b x) [0..<length b] t)"
    proof (rule fold_invariant)
      show "?P t" by (rule t)
    next
      fix y u assume "?P u"
      with x show "?P (longer_match a b x y u)"
        by (auto simp: longer_match_def Let_def)
    qed
  qed
  with assms show ?thesis by simp
qed

text \<open>
  The sum of the sizes of \<open>get_matching_blocks\<close>: the longest block, then the same
  to its left and to its right.
\<close>

function matching_size :: "string \<Rightarrow> string \<Rightarrow> nat" where
  "matching_size a b =
     (case find_longest_match a b of
        (i, j, k) \<Rightarrow>
          if k = 0 then 0
          else k + matching_size (take i a) (take j b)
                 + matching_size (drop (i + k) a) (drop (j + k) b))"
  by pat_completeness auto
termination
proof (relation "measure (\<lambda>(a, b). length a)", goal_cases)
  case 1
  show ?case by simp
next
  case (2 a b i y j k)
  then have "find_longest_match a b = (i, j, k)" by simp
  from find_longest_match_start [OF this] 2 have "i < length a" by simp
  then show ?case by simp
next
  case (3 a b i y j k)
  then have "find_longest_match a b = (i, j, k)" by simp
  from find_longest_match_start [OF this] 3 have "i < length a" by simp
  with 3 show ?case by simp
qed

declare matching_size.simps [simp del]

text \<open>
  \<open>_calculate_ratio\<close>, and the three ratios of a matcher with \<open>a\<close> and \<open>b\<close>. A
  ratio is the exact fraction; the float that Python computes compares with the cutoff
  in the same way for sequences as short as these.
\<close>

definition calculate_ratio :: "nat \<Rightarrow> nat \<Rightarrow> real" where
  "calculate_ratio matches len = (if len \<noteq> 0 then 2 * real matches / real len else 1)"

definition ratio :: "string \<Rightarrow> string \<Rightarrow> real" where
  "ratio a b = calculate_ratio (matching_size a b) (length a + length b)"

text \<open>\<open>quick_ratio\<close> counts the elements of \<open>a\<close> that \<open>b\<close> still has one of.\<close>

fun quick_matches :: "string \<Rightarrow> string \<Rightarrow> nat" where
  "quick_matches [] avail = 0"
| "quick_matches (x # xs) avail =
     (if x \<in> set avail then Suc (quick_matches xs (remove1 x avail))
      else quick_matches xs avail)"

definition quick_ratio :: "string \<Rightarrow> string \<Rightarrow> real" where
  "quick_ratio a b = calculate_ratio (quick_matches a b) (length a + length b)"

definition real_quick_ratio :: "string \<Rightarrow> string \<Rightarrow> real" where
  "real_quick_ratio a b = calculate_ratio (min (length a) (length b)) (length a + length b)"

text \<open>
  \<open>get_close_matches(word, possibilities, n, cutoff)\<close>, for \<open>n > 0\<close> and a cutoff in
  \<open>[0, 1]\<close>: the candidates that pass the three tests, the \<open>n\<close> largest pairs
  \<open>(ratio, candidate)\<close> of them, best first.
\<close>

definition close_enough :: "string \<Rightarrow> real \<Rightarrow> string \<Rightarrow> bool" where
  "close_enough word cutoff x =
     (cutoff \<le> real_quick_ratio x word \<and> cutoff \<le> quick_ratio x word \<and> cutoff \<le> ratio x word)"

definition get_close_matches :: "string \<Rightarrow> string list \<Rightarrow> nat \<Rightarrow> real \<Rightarrow> string list" where
  "get_close_matches word possibilities n cutoff =
     map snd (take n (rev (sort
       (map (\<lambda>x. (ratio x word, x)) (filter (close_enough word cutoff) possibilities)))))"

definition typo_fixes :: "(string \<times> string) list" where
  "typo_fixes =
     [(''gamil.com'', ''gmail.com''), (''gnail.com'', ''gmail.com''), (''gmai.com'', ''gmail.com''),
      (''gmail.co'', ''gmail.com''), (''yhoo.com'', ''yahoo.com''), (''yahoo.co'', ''yahoo.com''),
      (''hotnail.com'', ''hotmail.com''), (''outlok.com'', ''outlook.com''),
      (''iclod.com'', ''icloud.com''), (''me.co'', ''me.com''),
      (''protonmail.com'', ''proton.me''), (''pm.me'', ''proton.me'')]"

definition typo_suggestion :: "string \<Rightarrow> string option" where
  "typo_suggestion domn =
     (let d = lower domn
      in case map_of typo_fixes d of
           Some fixed \<Rightarrow> Some fixed
         | None \<Rightarrow>
             (case get_close_matches d COMMON_DOMAINS 1 0.86 of
                [] \<Rightarrow> None
              | c # _ \<Rightarrow> Some c))"

text \<open>
  A word of 200 characters or more, where \<open>autojunk\<close> would act, is close to no
  entry of \<open>COMMON_DOMAINS\<close>: \<open>real_quick_ratio\<close> already fails, and \<open>ratio\<close> is
  not computed.
\<close>

lemma COMMON_DOMAINS_short: "\<forall>x \<in> set COMMON_DOMAINS. length x \<le> 14"
  by code_simp

lemma long_word_not_close:
  assumes "200 \<le> length word" and "x \<in> set COMMON_DOMAINS"
  shows "\<not> close_enough word 0.86 x"
proof -
  from assms(2) COMMON_DOMAINS_short have x: "length x \<le> 14" by blast
  with assms(1) have m: "min (length x) (length word) = length x" by simp
  from assms(1) have ne: "word \<noteq> []" by auto
  have "real_quick_ratio x word = 2 * real (length x) / real (length x + length word)"
    using ne by (simp add: real_quick_ratio_def calculate_ratio_def m)
  also have "\<dots> < 0.86"
  proof -
    have "2 * real (length x) \<le> 28" using x by simp
    moreover have "0.86 * real (length x + length word) \<ge> 0.86 * 200"
      using assms(1) by simp
    ultimately have "2 * real (length x) < 0.86 * real (length x + length word)" by simp
    moreover have "0 < real (length x + length word)" using assms(1) by simp
    ultimately show ?thesis by (simp add: divide_less_eq)
  qed
  finally show ?thesis by (simp add: close_enough_def)
qed

section \<open>The world outside\<close>

text \<open>
  The resolver, the mail servers and the random generator are not code of this
  repository. They are an environment that answers each call; an answer is a value
  or an exception that Python's \<open>except Exception\<close> catches.
\<close>

datatype exn = Exception string

text \<open>
  What \<open>_read_resp\<close> returns after a command was written: the code and the text of
  the reply, or the exception that the write or the read raised.
\<close>

type_synonym reply = "exn + (nat \<times> string)"

text \<open>
  One connection to a host on port 25: what each step of the session meets. The
  replies to \<open>MAIL FROM\<close> and \<open>RCPT TO\<close> depend on the address sent.
\<close>

record session =
  on_connect :: "exn option"
  on_banner :: reply
  on_ehlo :: reply
  on_helo :: reply
  on_starttls :: reply
  on_tls_wrap :: "exn option"
  on_ehlo_tls :: reply
  on_mail_from :: "string \<Rightarrow> reply"
  on_rcpt_to :: "string \<Rightarrow> reply"

text \<open>
  \<open>validate_email\<close> is the parser of the \<open>email_validator\<close> package; \<open>resolve_mx\<close>
  is \<open>dns.resolver.resolve(domain, "MX", lifetime=timeout)\<close>, giving
  \<open>str(r.exchange)\<close> for each answer; \<open>connect n host timeout\<close> is the session that
  the \<open>n\<close>-th connection of the process meets; \<open>random_index n k\<close> is the \<open>k\<close>-th
  choice of the \<open>n\<close>-th call of \<open>random.choices\<close>.
\<close>

record env =
  validate_email :: "string \<Rightarrow> (string \<times> string) option"
  resolve_mx :: "string \<Rightarrow> real \<Rightarrow> exn + string list"
  connect :: "nat \<Rightarrow> string \<Rightarrow> real \<Rightarrow> session"
  random_index :: "nat \<Rightarrow> nat \<Rightarrow> nat"

text \<open>
  The state of the process: \<open>_mx_cache\<close>, and how many connections were opened and
  how many random local parts were drawn so far.
\<close>

type_synonym mx_result = "bool \<times> string list \<times> string"

record world =
  mx_cache :: "string \<rightharpoonup> mx_result"
  connections :: nat
  draws :: nat

section \<open>The exchanger resolver\<close>

definition guess_provider :: "string \<Rightarrow> string \<Rightarrow> string" where
  "guess_provider h provider_guess =
     (let hl = lower h
      in if contains hl ''google'' then ''Google Workspace/Gmail''
         else if contains hl ''outlook'' \<or> contains hl ''protection.outlook.com''
                 \<or> contains hl ''microsoft'' then ''Microsoft 365/Outlook''
         else if contains hl ''yahoodns'' \<or> contains hl ''yahoo'' then ''Yahoo''
         else if contains hl ''proton'' then ''Proton''
         else if contains hl ''icloud'' \<or> contains hl ''me.com'' then ''Apple iCloud''
         else provider_guess)"

definition check_mx :: "env \<Rightarrow> world \<Rightarrow> string \<Rightarrow> real \<Rightarrow> mx_result \<times> world" where
  "check_mx e w domn timeout =
     (case mx_cache w domn of
        Some res \<Rightarrow> (res, w)
      | None \<Rightarrow>
          (case resolve_mx e domn timeout of
             Inr answers \<Rightarrow>
               (let hosts = sort (map (rstrip_with (\<lambda>c. c = CHR ''.'')) answers);
                    provider_guess = fold guess_provider hosts [];
                    res = (True, hosts, provider_guess)
                in (res, w\<lparr>mx_cache := (mx_cache w)(domn \<mapsto> res)\<rparr>))
           | Inl _ \<Rightarrow>
               (let res = (False, [], [])
                in (res, w\<lparr>mx_cache := (mx_cache w)(domn \<mapsto> res)\<rparr>))))"

section \<open>The transport probe\<close>

text \<open>
  The body of the \<open>try\<close> for one host ends in one of three ways: a \<open>return\<close>, an
  exception (caught by the \<open>except\<close>, which goes on to the next host), or its last
  statement. It comes with the value of \<open>last_reason\<close> at that point.
\<close>

datatype attempt = Returns "bool option" string | Raises exn | Falls_through

text \<open>\<open>f"...{code or 'unknown'}"\<close>\<close>

definition code_or_unknown :: "nat \<Rightarrow> string" where
  "code_or_unknown code = (if code = 0 then ''unknown'' else str_nat code)"

text \<open>
  \<open>EHLO\<close>, then \<open>HELO\<close> when the reply is not 250. The result is the exception
  raised with the \<open>last_reason\<close> then, or the text of the reply to \<open>EHLO\<close>.
\<close>

definition say_ehlo :: "session \<Rightarrow> string \<Rightarrow> (exn \<times> string) + string" where
  "say_ehlo s last_reason =
     (case on_ehlo s of
        Inl x \<Rightarrow> Inl (x, last_reason)
      | Inr (code, ehlo) \<Rightarrow>
          if code \<noteq> 250 then
            (case on_helo s of
               Inl x \<Rightarrow> Inl (x, last_reason)
             | Inr (code2, _) \<Rightarrow>
                 if code2 \<noteq> 250
                 then Inl (Exception ''helo failed'', ''helo-fail-'' @ str_nat code2)
                 else Inr ehlo)
          else Inr ehlo)"

text \<open>\<open>STARTTLS\<close> if offered, with \<open>EHLO\<close> again once the socket is wrapped.\<close>

definition try_starttls :: "session \<Rightarrow> bool \<Rightarrow> string \<Rightarrow> string \<Rightarrow> (exn \<times> string) option" where
  "try_starttls s use_starttls ehlo last_reason =
     (if use_starttls \<and> contains (upper ehlo) ''STARTTLS'' then
        (case on_starttls s of
           Inl x \<Rightarrow> Some (x, last_reason)
         | Inr (code, _) \<Rightarrow>
             if code = 220 then
               (case on_tls_wrap s of
                  Some x \<Rightarrow> Some (x, last_reason)
                | None \<Rightarrow>
                    (case on_ehlo_tls s of
                       Inl x \<Rightarrow> Some (x, last_reason)
                     | Inr (code2, _) \<Rightarrow>
                         if code2 \<noteq> 250
                         then Some (Exception ''post-TLS EHLO failed'',
                                    ''posttls-ehlo-'' @ str_nat code2)
                         else None))
             else None)
      else None)"

text \<open>
  \<open>MAIL FROM\<close> and \<open>RCPT TO\<close>, and the reading of the recipient's code. The \<open>QUIT\<close>
  that follows \<open>RCPT TO\<close> and every \<open>close\<close> stand in a \<open>try\<close> of their own whose
  \<open>except\<close> passes: they change nothing.
\<close>

definition declare_recipient :: "config \<Rightarrow> session \<Rightarrow> string \<Rightarrow> string \<Rightarrow> attempt \<times> string" where
  "declare_recipient cfg s email last_reason =
     (case on_mail_from s (PROBE_MAIL_FROM cfg) of
        Inl x \<Rightarrow> (Raises x, last_reason)
      | Inr (code, _) \<Rightarrow>
          if code \<noteq> 250 \<and> code \<noteq> 251
          then (Raises (Exception ''MAIL FROM rejected''), ''mf-'' @ code_or_unknown code)
          else
            (case on_rcpt_to s email of
               Inl x \<Rightarrow> (Raises x, last_reason)
             | Inr (code2, _) \<Rightarrow>
                 if code2 = 250 then (Returns (Some True) ''smtp-250'', last_reason)
                 else if code2 = 450 \<or> code2 = 451 \<or> code2 = 452
                 then (Returns None ''smtp-temp'', last_reason)
                 else if 500 \<le> code2 \<and> code2 \<le> 599
                 then (Returns (Some False) ''smtp-5xx'', last_reason)
                 else (Falls_through, ''smtp-'' @ code_or_unknown code2)))"

definition probe_host :: "config \<Rightarrow> session \<Rightarrow> string \<Rightarrow> bool \<Rightarrow> string \<Rightarrow> attempt \<times> string" where
  "probe_host cfg s email use_starttls last_reason =
     (case on_connect s of
        Some x \<Rightarrow> (Raises x, last_reason)
      | None \<Rightarrow>
          (case on_banner s of
             Inl x \<Rightarrow> (Raises x, last_reason)
           | Inr (code, _) \<Rightarrow>
               if code \<noteq> 220
               then (Raises (Exception ''bad banner''), ''bad-banner-'' @ str_nat code)
               else
                 (case say_ehlo s last_reason of
                    Inl (x, lr) \<Rightarrow> (Raises x, lr)
                  | Inr ehlo \<Rightarrow>
                      (case try_starttls s use_starttls ehlo last_reason of
                         Some (x, lr) \<Rightarrow> (Raises x, lr)
                       | None \<Rightarrow> declare_recipient cfg s email last_reason))))"

text \<open>The loop \<open>for host in mx_hosts[:3]\<close>; each host is one more connection.\<close>

fun probe_hosts ::
  "config \<Rightarrow> env \<Rightarrow> string \<Rightarrow> real \<Rightarrow> bool \<Rightarrow> string list \<Rightarrow> string \<Rightarrow> world
     \<Rightarrow> (bool option \<times> string) \<times> world"
where
  "probe_hosts cfg e email timeout use_starttls [] last_reason w = ((None, last_reason), w)"
| "probe_hosts cfg e email timeout use_starttls (host # rest) last_reason w =
     (let s = connect e (connections w) host timeout;
          w' = w\<lparr>connections := Suc (connections w)\<rparr>
      in case probe_host cfg s email use_starttls last_reason of
           (Returns ok reason, _) \<Rightarrow> ((ok, reason), w')
         | (Raises _, lr) \<Rightarrow> probe_hosts cfg e email timeout use_starttls rest lr w'
         | (Falls_through, lr) \<Rightarrow> probe_hosts cfg e email timeout use_starttls rest lr w')"

definition smtp_probe ::
  "config \<Rightarrow> env \<Rightarrow> world \<Rightarrow> string \<Rightarrow> string list \<Rightarrow> real \<Rightarrow> bool
     \<Rightarrow> (bool option \<times> string) \<times> world"
where
  "smtp_probe cfg e w email mx_hosts timeout use_starttls =
     (if mx_hosts = [] then ((None, ''no-mx''), w)
      else probe_hosts cfg e email timeout use_starttls (take 3 mx_hosts)
             ''smtp-inconclusive'' w)"

section \<open>The accept-all detector\<close>

text \<open>\<open>''.join(random.choices(string.ascii_lowercase + string.digits, k=16))\<close>\<close>

definition random_local :: "env \<Rightarrow> world \<Rightarrow> string \<times> world" where
  "random_local e w =
     (map (\<lambda>k. (''abcdefghijklmnopqrstuvwxyz0123456789'') ! (random_index e (draws w) k mod 36))
        [0..<16],
      w\<lparr>draws := Suc (draws w)\<rparr>)"

text \<open>
  The loop \<open>for _ in range(attempts)\<close>, with the attempts left and the successes so
  far: \<open>None\<close> is its \<open>return None\<close>, otherwise it ends with the count of successes.
\<close>

fun accept_all_attempts ::
  "config \<Rightarrow> env \<Rightarrow> string \<Rightarrow> string list \<Rightarrow> real \<Rightarrow> nat \<Rightarrow> nat \<Rightarrow> world
     \<Rightarrow> nat option \<times> world"
where
  "accept_all_attempts cfg e domn mx_hosts timeout 0 successes w = (Some successes, w)"
| "accept_all_attempts cfg e domn mx_hosts timeout (Suc n) successes w =
     (let (rnd, w1) = random_local e w;
          fake = rnd @ ''@'' @ domn;
          ((ok, _), w2) = smtp_probe cfg e w1 fake mx_hosts timeout True
      in case ok of
           Some True \<Rightarrow> accept_all_attempts cfg e domn mx_hosts timeout n (successes + 1) w2
         | None \<Rightarrow> (None, w2)
         | Some False \<Rightarrow> accept_all_attempts cfg e domn mx_hosts timeout n successes w2)"

definition is_accept_all ::
  "config \<Rightarrow> env \<Rightarrow> world \<Rightarrow> string \<Rightarrow> string list \<Rightarrow> real \<Rightarrow> bool option \<times> world"
where
  "is_accept_all cfg e w domn mx_hosts timeout =
     (if mx_hosts = [] then (None, w)
      else
        (let attempts = nat (max 1 (ACCEPT_ALL_PROBES cfg))
         in case accept_all_attempts cfg e domn mx_hosts timeout attempts 0 w of
              (None, w') \<Rightarrow> (None, w')
            | (Some successes, w') \<Rightarrow>
                if successes = attempts then (Some True, w')
                else if successes = 0 then (Some False, w')
                else (None, w')))"

section \<open>The verdict\<close>

text \<open>
  The \<open>checks\<close> dictionary and the dictionary returned. A score is a Python float;
  it is modelled as the real number that its decimal literal denotes.
\<close>

record checks =
  chk_has_valid_address_syntax :: bool
  chk_has_mx_or_a_record :: bool
  chk_is_disposable :: bool
  chk_is_role_address :: bool
  chk_is_free_provider :: bool
  chk_is_accept_all :: "bool option"
  chk_smtp_checked :: bool
  chk_smtp_deliverable :: bool
  chk_domain :: "string option"

record result =
  r_email :: string
  r_verdict :: string
  r_status :: string
  r_score :: real
  r_checks :: checks
  r_provider :: "string option"
  r_suggestion :: "string option"
  r_reason :: string

text \<open>
  \<open>_fallback_risky_score\<close> is called on \<open>checks\<close> extended with the key
  \<open>unverifiable_provider\<close>: the second argument is the value of that key.
\<close>

definition fallback_risky_score :: "checks \<Rightarrow> bool \<Rightarrow> real" where
  "fallback_risky_score c unverifiable_provider =
     (let score = 0.62;
          score = (if chk_is_disposable c then score - 0.22 else score);
          score = (if chk_is_role_address c then score - 0.12 else score);
          score = (if chk_is_free_provider c then score - 0.03 else score);
          score = (if chk_is_accept_all c = Some True then score - 0.18 else score);
          score = (if unverifiable_provider then score - 0.08 else score)
      in max 0 (min 0.89 score))"

text \<open>\<open>round(x, 3)\<close>\<close>

definition round3 :: "real \<Rightarrow> real" where
  "round3 x = real_of_int (round (x * 1000)) / 1000"

text \<open>
  Python rounds the float to the nearest decimal with three digits; the scores that
  reach \<open>round\<close> are multiples of 0.01, which rounding leaves as they are.
\<close>

lemma round3_fallback_risky_score:
  "round3 (fallback_risky_score c u) = fallback_risky_score c u"
  by (cases "chk_is_disposable c"; cases "chk_is_role_address c"; cases "chk_is_free_provider c";
      cases "chk_is_accept_all c = Some True"; cases u)
     (simp_all add: fallback_risky_score_def round3_def)

text \<open>\<open>a or b\<close> for a string \<open>a\<close> and an optional string \<open>b\<close>.\<close>

definition or_else :: "string \<Rightarrow> string option \<Rightarrow> string option" where
  "or_else a b = (if a \<noteq> [] then Some a else b)"

text \<open>
  The end of \<open>validate_email_record\<close>, from \<open>if block_name and not
  checks["smtp_checked"]\<close> on, which every path that did not return reaches.
\<close>

definition fallback_result ::
  "string \<Rightarrow> checks \<Rightarrow> string \<Rightarrow> string option \<Rightarrow> string option \<Rightarrow> bool \<Rightarrow> string \<Rightarrow> result"
where
  "fallback_result raw c provider_guess block_name suggestion unverifiable smtp_note =
     (let unverifiable = (if truthy block_name \<and> \<not> chk_smtp_checked c then True else unverifiable);
          reason = (if unverifiable then ''unverifiable'' else ''dns-only'');
          score = fallback_risky_score c unverifiable
      in \<lparr>r_email = raw, r_verdict = ''risky'', r_status = ''risky'',
          r_score = round3 score,
          r_checks = c, r_provider = or_else provider_guess block_name,
          r_suggestion = suggestion,
          r_reason = (if reason \<noteq> [] then reason
                      else if smtp_note \<noteq> [] then smtp_note else ''dns-only'')\<rparr>)"

text \<open>
  \<open>validate_email_record\<close> once the syntax check has passed, with the local part
  and the domain it found.
\<close>

definition validate_parsed ::
  "config \<Rightarrow> env \<Rightarrow> world \<Rightarrow> string \<Rightarrow> string \<Rightarrow> string \<Rightarrow> string \<Rightarrow> checks \<Rightarrow> real \<Rightarrow> bool \<Rightarrow> bool
     \<Rightarrow> result \<times> world"
where
  "validate_parsed cfg e w raw email local_part domn c0 timeout do_smtp accept_all_note =
     (let c1 = c0\<lparr>chk_is_role_address := is_role_account local_part\<rparr>;
          c2 = c1\<lparr>chk_is_disposable := is_disposable domn\<rparr>;
          c3 = c2\<lparr>chk_is_free_provider := (lower domn \<in> set FREE_PROVIDERS)\<rparr>;
          suggestion = typo_suggestion domn;
          ((has_mx, hosts, provider_guess), w1) = check_mx e w domn timeout;
          c4 = c3\<lparr>chk_has_mx_or_a_record := has_mx\<rparr>
      in if \<not> has_mx then
           (\<lparr>r_email = raw, r_verdict = ''invalid'', r_status = ''invalid'',
             r_score = 0.10, r_checks = c4,
             r_provider = or_else provider_guess None,
             r_suggestion = suggestion, r_reason = ''no-mx''\<rparr>, w1)
         else
           (let block_name = provider_blocks_smtp domn
            in if do_smtp \<and> ALLOW_SMTP_PROBE cfg then
                 (let c5 = c4\<lparr>chk_smtp_checked := True\<rparr>
                  in if truthy block_name \<and> \<not> PROBE_BLOCKED cfg then
                       (fallback_result raw c5 provider_guess block_name suggestion True [], w1)
                     else
                       (let ((smtp_ok, smtp_note), w2) = smtp_probe cfg e w1 email hosts timeout True
                        in case smtp_ok of
                             Some True \<Rightarrow>
                               (let c6 = c5\<lparr>chk_smtp_deliverable := True\<rparr>;
                                    (aa, w3) = is_accept_all cfg e w2 domn hosts timeout;
                                    c7 = c6\<lparr>chk_is_accept_all := aa\<rparr>
                                in if aa = Some True \<and> accept_all_note then
                                     (\<lparr>r_email = raw, r_verdict = ''risky'', r_status = ''risky'',
                                       r_score = 0.74, r_checks = c7,
                                       r_provider = or_else provider_guess block_name,
                                       r_suggestion = suggestion, r_reason = ''accept-all''\<rparr>, w3)
                                   else
                                     (\<lparr>r_email = raw, r_verdict = ''valid'', r_status = ''valid'',
                                       r_score = 0.95, r_checks = c7,
                                       r_provider = or_else provider_guess block_name,
                                       r_suggestion = suggestion, r_reason = ''smtp-250''\<rparr>, w3))
                           | Some False \<Rightarrow>
                               (\<lparr>r_email = raw, r_verdict = ''invalid'', r_status = ''invalid'',
                                 r_score = 0.15,
                                 r_checks = c5\<lparr>chk_is_accept_all := Some False\<rparr>,
                                 r_provider = or_else provider_guess block_name,
                                 r_suggestion = suggestion, r_reason = ''smtp-5xx''\<rparr>, w2)
                           | None \<Rightarrow>
                               (fallback_result raw c5 provider_guess block_name suggestion
                                  True smtp_note, w2)))
               else
                 (fallback_result raw c4 provider_guess block_name suggestion False [], w1)))"

text \<open>
  \<open>validate_email_record\<close>. The result is \<open>Inr\<close> of the dictionary returned, or
  \<open>Inl\<close> of an exception that reaches the caller: past the syntax check the code
  calls \<open>local.split\<close> and \<open>domain.lower\<close>, which raise \<open>AttributeError\<close> on \<open>None\<close>.
\<close>

definition validate_email_record ::
  "config \<Rightarrow> env \<Rightarrow> world \<Rightarrow> string \<Rightarrow> real \<Rightarrow> bool \<Rightarrow> bool \<Rightarrow> (exn + result) \<times> world"
where
  "validate_email_record cfg e w email timeout do_smtp accept_all_note =
     (let raw = email;
          email' = normalize email;
          (ok, local_part, domn) = check_syntax (validate_email e) email';
          c0 = \<lparr>chk_has_valid_address_syntax = (ok \<and> truthy local_part \<and> truthy domn),
                chk_has_mx_or_a_record = False,
                chk_is_disposable = False,
                chk_is_role_address = False,
                chk_is_free_provider = False,
                chk_is_accept_all = None,
                chk_smtp_checked = False,
                chk_smtp_deliverable = False,
                chk_domain = (if truthy domn then domn else None)\<rparr>
      in if \<not> chk_has_valid_address_syntax c0 then
           (Inr \<lparr>r_email = raw, r_verdict = ''invalid'', r_status = ''invalid'',
                 r_score = 0.05, r_checks = c0, r_provider = None,
                 r_suggestion = None, r_reason = ''bad-syntax''\<rparr>, w)
         else
           (case (local_part, domn) of
              (Some l, Some d) \<Rightarrow>
                (case validate_parsed cfg e w raw email' l d c0 timeout do_smtp accept_all_note of
                   (r, w') \<Rightarrow> (Inr r, w'))
            | _ \<Rightarrow> (Inl (Exception ''AttributeError''), w)))"

section \<open>A concrete environment\<close>

text \<open>
  An environment for the concrete runs below: a parser that rejects every address (so
  that \<open>EMAIL_REGEX\<close> decides), a resolver that answers two exchangers for every
  domain, servers that complete the handshake and answer \<open>RCPT TO\<close> with a given code,
  the configuration the source defaults to, and the state of a process just started.
\<close>

definition no_parser :: "string \<Rightarrow> (string \<times> string) option" where "no_parser s = None"
definition session_with :: "nat \<Rightarrow> session" where
 "session_with c = \<lparr>on_connect = None, on_banner = Inr (220, ''ready''), on_ehlo = Inr (250, ''hello''),
    on_helo = Inr (250, ''hello''),
    on_starttls = Inr (220, ''go''), on_tls_wrap = None, on_ehlo_tls = Inr (250, ''hello''),
    on_mail_from = (\<lambda>_. Inr (250, ''ok'')), on_rcpt_to = (\<lambda>_. Inr (c, ''''))\<rparr>"
definition env_with :: "nat \<Rightarrow> env" where
 "env_with c = \<lparr>validate_email = no_parser, resolve_mx = (\<lambda>d t. Inr [''mx2.example.com.'', ''mx1.example.com.'']),
    connect = (\<lambda>n h t. session_with c), random_index = (\<lambda>n k. n + k)\<rparr>"
definition default_config :: config where
 "default_config = \<lparr>ALLOW_SMTP_PROBE = True, PROBE_BLOCKED = True, DEFAULT_TIMEOUT = 6, PROBE_MAIL_FROM = ''probe@localhost.localdomain'', ACCEPT_ALL_PROBES = 2\<rparr>"
definition fresh :: world where "fresh = \<lparr>mx_cache = Map.empty, connections = 0, draws = 0\<rparr>"

definition failing_resolver_env :: env where
  "failing_resolver_env = (env_with 250)\<lparr>resolve_mx := (\<lambda>d t. Inl (Exception ''NXDOMAIN''))\<rparr>"

definition skip_refusing_config :: config where
  "skip_refusing_config = default_config\<lparr>PROBE_BLOCKED := False\<rparr>"

definition scripted_env :: "nat list \<Rightarrow> env" where
  "scripted_env codes =
     (env_with 250)\<lparr>connect := (\<lambda>n h t. session_with (if n < length codes then codes ! n else 250))\<rparr>"


section \<open>The branches of the verdict\<close>

lemma fallback_result_score:
  "r_verdict (fallback_result raw c pg bn sg u nt) = ''risky'' \<and>
   r_status (fallback_result raw c pg bn sg u nt) = ''risky'' \<and>
   (r_reason (fallback_result raw c pg bn sg u nt) = ''unverifiable'' \<or>
    r_reason (fallback_result raw c pg bn sg u nt) = ''dns-only'') \<and>
   r_checks (fallback_result raw c pg bn sg u nt) = c \<and>
   r_score (fallback_result raw c pg bn sg u nt) =
     round3 (fallback_risky_score c (r_reason (fallback_result raw c pg bn sg u nt) = ''unverifiable''))"
  by (simp add: fallback_result_def Let_def)

lemma fallback_risky_score_eq:
  "fallback_risky_score c u =
     max 0 (min 0.89 (0.62 - (if chk_is_disposable c then 0.22 else 0)
        - (if chk_is_role_address c then 0.12 else 0)
        - (if chk_is_free_provider c then 0.03 else 0)
        - (if chk_is_accept_all c = Some True then 0.18 else 0)
        - (if u then 0.08 else 0)))"
  by (cases "chk_is_disposable c"; cases "chk_is_role_address c"; cases "chk_is_free_provider c";
      cases "chk_is_accept_all c = Some True"; cases u)
     (simp_all add: fallback_risky_score_def)

lemma validate_parsed_unfold:
  assumes "check_mx e w d timeout = ((has_mx, hosts, pg), w1)"
    and "smtp_probe cfg e w1 email hosts timeout True = ((smtp_ok, nt), w2)"
    and "is_accept_all cfg e w2 d hosts timeout = (aa, w3)"
    and "c4 = c0\<lparr>chk_is_role_address := is_role_account l, chk_is_disposable := is_disposable d,
                  chk_is_free_provider := (lower d \<in> set FREE_PROVIDERS),
                  chk_has_mx_or_a_record := has_mx\<rparr>"
    and "bn = provider_blocks_smtp d" and "sg = typo_suggestion d"
  shows "validate_parsed cfg e w raw email l d c0 timeout do_smtp accept_all_note =
    (if \<not> has_mx then
       (\<lparr>r_email = raw, r_verdict = ''invalid'', r_status = ''invalid'', r_score = 0.10,
         r_checks = c4, r_provider = or_else pg None, r_suggestion = sg, r_reason = ''no-mx''\<rparr>, w1)
     else if \<not> (do_smtp \<and> ALLOW_SMTP_PROBE cfg) then
       (fallback_result raw c4 pg bn sg False [], w1)
     else if truthy bn \<and> \<not> PROBE_BLOCKED cfg then
       (fallback_result raw (c4\<lparr>chk_smtp_checked := True\<rparr>) pg bn sg True [], w1)
     else if smtp_ok = None then
       (fallback_result raw (c4\<lparr>chk_smtp_checked := True\<rparr>) pg bn sg True nt, w2)
     else if smtp_ok = Some False then
       (\<lparr>r_email = raw, r_verdict = ''invalid'', r_status = ''invalid'', r_score = 0.15,
         r_checks = c4\<lparr>chk_smtp_checked := True, chk_is_accept_all := Some False\<rparr>,
         r_provider = or_else pg bn, r_suggestion = sg, r_reason = ''smtp-5xx''\<rparr>, w2)
     else if aa = Some True \<and> accept_all_note then
       (\<lparr>r_email = raw, r_verdict = ''risky'', r_status = ''risky'', r_score = 0.74,
         r_checks = c4\<lparr>chk_smtp_checked := True, chk_smtp_deliverable := True, chk_is_accept_all := aa\<rparr>,
         r_provider = or_else pg bn, r_suggestion = sg, r_reason = ''accept-all''\<rparr>, w3)
     else
       (\<lparr>r_email = raw, r_verdict = ''valid'', r_status = ''valid'', r_score = 0.95,
         r_checks = c4\<lparr>chk_smtp_checked := True, chk_smtp_deliverable := True, chk_is_accept_all := aa\<rparr>,
         r_provider = or_else pg bn, r_suggestion = sg, r_reason = ''smtp-250''\<rparr>, w3))"
proof (cases smtp_ok)
  case None
  then show ?thesis by (simp add: validate_parsed_def assms Let_def)
next
  case (Some b)
  then show ?thesis by (cases b) (simp_all add: validate_parsed_def assms Let_def)
qed


lemma validate_email_record_cases:
  obtains (bad_syntax) ok lp dm where
      "check_syntax (validate_email e) (normalize email) = (ok, lp, dm)"
      "\<not> (ok \<and> truthy lp \<and> truthy dm)"
      "validate_email_record cfg e w email timeout do_smtp accept_all_note =
         (Inr \<lparr>r_email = email, r_verdict = ''invalid'', r_status = ''invalid'', r_score = 0.05,
               r_checks =
                 \<lparr>chk_has_valid_address_syntax = False, chk_has_mx_or_a_record = False,
                  chk_is_disposable = False, chk_is_role_address = False,
                  chk_is_free_provider = False, chk_is_accept_all = None,
                  chk_smtp_checked = False, chk_smtp_deliverable = False,
                  chk_domain = (if truthy dm then dm else None)\<rparr>,
               r_provider = None, r_suggestion = None,
               r_reason = ''bad-syntax''\<rparr>, w)"
  | (parsed) l d c0 where
      "check_syntax (validate_email e) (normalize email) = (True, Some l, Some d)"
      "l \<noteq> []" "d \<noteq> []"
      "c0 = \<lparr>chk_has_valid_address_syntax = True, chk_has_mx_or_a_record = False,
              chk_is_disposable = False, chk_is_role_address = False,
              chk_is_free_provider = False, chk_is_accept_all = None,
              chk_smtp_checked = False, chk_smtp_deliverable = False,
              chk_domain = Some d\<rparr>"
      "validate_email_record cfg e w email timeout do_smtp accept_all_note =
         (Inr (fst (validate_parsed cfg e w email (normalize email) l d c0 timeout do_smtp accept_all_note)),
          snd (validate_parsed cfg e w email (normalize email) l d c0 timeout do_smtp accept_all_note))"
proof -
  obtain ok lp dm where cs: "check_syntax (validate_email e) (normalize email) = (ok, lp, dm)"
    by (cases "check_syntax (validate_email e) (normalize email)") auto
  show ?thesis
  proof (cases "ok \<and> truthy lp \<and> truthy dm")
    case False
    then show ?thesis
      by (intro bad_syntax [of ok lp dm]) (auto simp add: validate_email_record_def cs Let_def)
  next
    case True
    then obtain l d where ld: "lp = Some l" "dm = Some d" "l \<noteq> []" "d \<noteq> []" "ok"
      by (auto simp: truthy_def split: option.splits)
    show ?thesis
      by (rule parsed [of l d, OF _ _ _ refl])
         (simp_all add: validate_email_record_def cs ld Let_def truthy_def split: prod.splits)
  qed
qed


lemma validate_parsed_cases
  [case_names no_mx not_probed blocked inconclusive rejected accept_all valid]:
  fixes cfg e w raw email l d c0 timeout do_smtp accept_all_note
  defines "run \<equiv> validate_parsed cfg e w raw email l d c0 timeout do_smtp accept_all_note"
    and "bn \<equiv> provider_blocks_smtp d" and "sg \<equiv> typo_suggestion d"
    and "c4 \<equiv> \<lambda>has_mx. c0\<lparr>chk_is_role_address := is_role_account l,
                  chk_is_disposable := is_disposable d,
                  chk_is_free_provider := (lower d \<in> set FREE_PROVIDERS),
                  chk_has_mx_or_a_record := has_mx\<rparr>"
  obtains
    (no_mx) hosts pg w1 where
      "check_mx e w d timeout = ((False, hosts, pg), w1)"
      "run = (\<lparr>r_email = raw, r_verdict = ''invalid'', r_status = ''invalid'', r_score = 0.10,
               r_checks = c4 False, r_provider = or_else pg None, r_suggestion = sg,
               r_reason = ''no-mx''\<rparr>, w1)"
  | (not_probed) hosts pg w1 where
      "check_mx e w d timeout = ((True, hosts, pg), w1)"
      "\<not> (do_smtp \<and> ALLOW_SMTP_PROBE cfg)"
      "run = (fallback_result raw (c4 True) pg bn sg False [], w1)"
  | (blocked) hosts pg w1 where
      "check_mx e w d timeout = ((True, hosts, pg), w1)"
      "do_smtp" "ALLOW_SMTP_PROBE cfg" "truthy bn" "\<not> PROBE_BLOCKED cfg"
      "run = (fallback_result raw ((c4 True)\<lparr>chk_smtp_checked := True\<rparr>) pg bn sg True [], w1)"
  | (inconclusive) hosts pg w1 nt w2 where
      "check_mx e w d timeout = ((True, hosts, pg), w1)"
      "do_smtp" "ALLOW_SMTP_PROBE cfg" "\<not> (truthy bn \<and> \<not> PROBE_BLOCKED cfg)"
      "smtp_probe cfg e w1 email hosts timeout True = ((None, nt), w2)"
      "run = (fallback_result raw ((c4 True)\<lparr>chk_smtp_checked := True\<rparr>) pg bn sg True nt, w2)"
  | (rejected) hosts pg w1 nt w2 where
      "check_mx e w d timeout = ((True, hosts, pg), w1)"
      "do_smtp" "ALLOW_SMTP_PROBE cfg" "\<not> (truthy bn \<and> \<not> PROBE_BLOCKED cfg)"
      "smtp_probe cfg e w1 email hosts timeout True = ((Some False, nt), w2)"
      "run = (\<lparr>r_email = raw, r_verdict = ''invalid'', r_status = ''invalid'', r_score = 0.15,
               r_checks = (c4 True)\<lparr>chk_smtp_checked := True, chk_is_accept_all := Some False\<rparr>,
               r_provider = or_else pg bn, r_suggestion = sg, r_reason = ''smtp-5xx''\<rparr>, w2)"
  | (accept_all) hosts pg w1 nt w2 w3 where
      "check_mx e w d timeout = ((True, hosts, pg), w1)"
      "do_smtp" "ALLOW_SMTP_PROBE cfg" "\<not> (truthy bn \<and> \<not> PROBE_BLOCKED cfg)"
      "smtp_probe cfg e w1 email hosts timeout True = ((Some True, nt), w2)"
      "is_accept_all cfg e w2 d hosts timeout = (Some True, w3)" "accept_all_note"
      "run = (\<lparr>r_email = raw, r_verdict = ''risky'', r_status = ''risky'', r_score = 0.74,
               r_checks = (c4 True)\<lparr>chk_smtp_checked := True, chk_smtp_deliverable := True,
                                     chk_is_accept_all := Some True\<rparr>,
               r_provider = or_else pg bn, r_suggestion = sg, r_reason = ''accept-all''\<rparr>, w3)"
  | (valid) hosts pg w1 nt w2 aa w3 where
      "check_mx e w d timeout = ((True, hosts, pg), w1)"
      "do_smtp" "ALLOW_SMTP_PROBE cfg" "\<not> (truthy bn \<and> \<not> PROBE_BLOCKED cfg)"
      "smtp_probe cfg e w1 email hosts timeout True = ((Some True, nt), w2)"
      "is_accept_all cfg e w2 d hosts timeout = (aa, w3)" "\<not> (aa = Some True \<and> accept_all_note)"
      "run = (\<lparr>r_email = raw, r_verdict = ''valid'', r_status = ''valid'', r_score = 0.95,
               r_checks = (c4 True)\<lparr>chk_smtp_checked := True, chk_smtp_deliverable := True,
                                     chk_is_accept_all := aa\<rparr>,
               r_provider = or_else pg bn, r_suggestion = sg, r_reason = ''smtp-250''\<rparr>, w3)"
proof -
  obtain has_mx hosts pg w1 where a: "check_mx e w d timeout = ((has_mx, hosts, pg), w1)"
    by (metis surj_pair)
  obtain smtp_ok nt w2 where b: "smtp_probe cfg e w1 email hosts timeout True = ((smtp_ok, nt), w2)"
    by (metis surj_pair)
  obtain aa w3 where c: "is_accept_all cfg e w2 d hosts timeout = (aa, w3)"
    by (metis surj_pair)
  note unf = validate_parsed_unfold [OF a b c refl refl refl, of raw l c0 do_smtp accept_all_note,
      folded run_def bn_def sg_def]
  show ?thesis
  proof (cases has_mx)
    case False
    with a unf show ?thesis by (intro no_mx [of hosts pg w1]) (simp_all add: c4_def)
  next
    case mx: True
    show ?thesis
    proof (cases "do_smtp \<and> ALLOW_SMTP_PROBE cfg")
      case False
      with a unf mx show ?thesis by (intro not_probed [of hosts pg w1]) (simp_all add: c4_def)
    next
      case on: True
      show ?thesis
      proof (cases "truthy bn \<and> \<not> PROBE_BLOCKED cfg")
        case True
        with a unf mx on show ?thesis by (intro blocked [of hosts pg w1]) (simp_all add: c4_def)
      next
        case nb: False
        show ?thesis
        proof (cases smtp_ok)
          case None
          with a b unf mx on nb show ?thesis
            by (intro inconclusive [of hosts pg w1 nt w2]) (simp_all add: c4_def)
        next
          case (Some ok)
          show ?thesis
          proof (cases ok)
            case False
            with Some a b unf mx on nb show ?thesis
              by (intro rejected [of hosts pg w1 nt w2]) (simp_all add: c4_def)
          next
            case True
            show ?thesis
            proof (cases "aa = Some True \<and> accept_all_note")
              case True
              with \<open>ok\<close> Some a b c unf mx on nb show ?thesis
                by (intro accept_all [of hosts pg w1 nt w2 w3]) (simp_all add: c4_def)
            next
              case False
              with \<open>ok\<close> Some a b c unf mx on nb show ?thesis
                by (intro valid [of hosts pg w1 nt w2 aa w3]) (simp_all add: c4_def)
            qed
          qed
        qed
      qed
    qed
  qed
qed


lemma verdict_cases
  [case_names bad_syntax no_mx not_probed blocked inconclusive rejected accept_all valid]:
  fixes cfg e w email timeout do_smtp accept_all_note
  defines "run \<equiv> validate_email_record cfg e w email timeout do_smtp accept_all_note"
    and "parse \<equiv> check_syntax (validate_email e) (normalize email)"
    and "c \<equiv> \<lambda>l d has_mx checked deliverable aa.
          \<lparr>chk_has_valid_address_syntax = True, chk_has_mx_or_a_record = has_mx,
           chk_is_disposable = is_disposable d, chk_is_role_address = is_role_account l,
           chk_is_free_provider = (lower d \<in> set FREE_PROVIDERS), chk_is_accept_all = aa,
           chk_smtp_checked = checked, chk_smtp_deliverable = deliverable,
           chk_domain = Some d\<rparr>"
  obtains
    (bad_syntax) ok lp dm where
      "run = (Inr \<lparr>r_email = email, r_verdict = ''invalid'', r_status = ''invalid'',
                   r_score = 0.05,
                   r_checks =
                     \<lparr>chk_has_valid_address_syntax = False, chk_has_mx_or_a_record = False,
                      chk_is_disposable = False, chk_is_role_address = False,
                      chk_is_free_provider = False, chk_is_accept_all = None,
                      chk_smtp_checked = False, chk_smtp_deliverable = False,
                      chk_domain = (if truthy dm then dm else None)\<rparr>,
                   r_provider = None, r_suggestion = None,
                   r_reason = ''bad-syntax''\<rparr>, w)"
      "parse = (ok, lp, dm)" "\<not> (ok \<and> truthy lp \<and> truthy dm)"
  | (no_mx) l d hosts pg w1 where
      "parse = (True, Some l, Some d)" "l \<noteq> []" "d \<noteq> []"
      "check_mx e w d timeout = ((False, hosts, pg), w1)"
      "run = (Inr \<lparr>r_email = email, r_verdict = ''invalid'', r_status = ''invalid'',
                   r_score = 0.10, r_checks = c l d False False False None,
                   r_provider = or_else pg None, r_suggestion = typo_suggestion d,
                   r_reason = ''no-mx''\<rparr>, w1)"
  | (not_probed) l d hosts pg w1 where
      "parse = (True, Some l, Some d)" "l \<noteq> []" "d \<noteq> []"
      "check_mx e w d timeout = ((True, hosts, pg), w1)"
      "\<not> (do_smtp \<and> ALLOW_SMTP_PROBE cfg)"
      "run = (Inr (fallback_result email (c l d True False False None) pg
                    (provider_blocks_smtp d) (typo_suggestion d) False []), w1)"
  | (blocked) l d hosts pg w1 where
      "parse = (True, Some l, Some d)" "l \<noteq> []" "d \<noteq> []"
      "check_mx e w d timeout = ((True, hosts, pg), w1)"
      "do_smtp" "ALLOW_SMTP_PROBE cfg"
      "truthy (provider_blocks_smtp d)" "\<not> PROBE_BLOCKED cfg"
      "run = (Inr (fallback_result email (c l d True True False None) pg
                    (provider_blocks_smtp d) (typo_suggestion d) True []), w1)"
  | (inconclusive) l d hosts pg w1 nt w2 where
      "parse = (True, Some l, Some d)" "l \<noteq> []" "d \<noteq> []"
      "check_mx e w d timeout = ((True, hosts, pg), w1)"
      "do_smtp" "ALLOW_SMTP_PROBE cfg"
      "\<not> (truthy (provider_blocks_smtp d) \<and> \<not> PROBE_BLOCKED cfg)"
      "smtp_probe cfg e w1 (normalize email) hosts timeout True = ((None, nt), w2)"
      "run = (Inr (fallback_result email (c l d True True False None) pg
                    (provider_blocks_smtp d) (typo_suggestion d) True nt), w2)"
  | (rejected) l d hosts pg w1 nt w2 where
      "parse = (True, Some l, Some d)" "l \<noteq> []" "d \<noteq> []"
      "check_mx e w d timeout = ((True, hosts, pg), w1)"
      "do_smtp" "ALLOW_SMTP_PROBE cfg"
      "\<not> (truthy (provider_blocks_smtp d) \<and> \<not> PROBE_BLOCKED cfg)"
      "smtp_probe cfg e w1 (normalize email) hosts timeout True = ((Some False, nt), w2)"
      "run = (Inr \<lparr>r_email = email, r_verdict = ''invalid'', r_status = ''invalid'',
                   r_score = 0.15, r_checks = c l d True True False (Some False),
                   r_provider = or_else pg (provider_blocks_smtp d),
                   r_suggestion = typo_suggestion d, r_reason = ''smtp-5xx''\<rparr>, w2)"
  | (accept_all) l d hosts pg w1 nt w2 w3 where
      "parse = (True, Some l, Some d)" "l \<noteq> []" "d \<noteq> []"
      "check_mx e w d timeout = ((True, hosts, pg), w1)"
      "do_smtp" "ALLOW_SMTP_PROBE cfg"
      "\<not> (truthy (provider_blocks_smtp d) \<and> \<not> PROBE_BLOCKED cfg)"
      "smtp_probe cfg e w1 (normalize email) hosts timeout True = ((Some True, nt), w2)"
      "is_accept_all cfg e w2 d hosts timeout = (Some True, w3)" "accept_all_note"
      "run = (Inr \<lparr>r_email = email, r_verdict = ''risky'', r_status = ''risky'',
                   r_score = 0.74, r_checks = c l d True True True (Some True),
                   r_provider = or_else pg (provider_blocks_smtp d),
                   r_suggestion = typo_suggestion d, r_reason = ''accept-all''\<rparr>, w3)"
  | (valid) l d hosts pg w1 nt w2 aa w3 where
      "parse = (True, Some l, Some d)" "l \<noteq> []" "d \<noteq> []"
      "check_mx e w d timeout = ((True, hosts, pg), w1)"
      "do_smtp" "ALLOW_SMTP_PROBE cfg"
      "\<not> (truthy (provider_blocks_smtp d) \<and> \<not> PROBE_BLOCKED cfg)"
      "smtp_probe cfg e w1 (normalize email) hosts timeout True = ((Some True, nt), w2)"
      "is_accept_all cfg e w2 d hosts timeout = (aa, w3)"
      "\<not> (aa = Some True \<and> accept_all_note)"
      "run = (Inr \<lparr>r_email = email, r_verdict = ''valid'', r_status = ''valid'',
                   r_score = 0.95, r_checks = c l d True True True aa,
                   r_provider = or_else pg (provider_blocks_smtp d),
                   r_suggestion = typo_suggestion d, r_reason = ''smtp-250''\<rparr>, w3)"
proof (cases rule: validate_email_record_cases
    [where cfg = cfg and e = e and w = w and email = email and timeout = timeout
       and do_smtp = do_smtp and accept_all_note = accept_all_note])
  case (bad_syntax ok lp dm)
  then show ?thesis by (intro that(1) [of dm ok lp]) (simp_all add: run_def parse_def)
next
  case p: (parsed l d c0)
  note syn = p(1) [folded parse_def] p(2) p(3)
  note q = p(5) [folded run_def]
  show ?thesis
  proof (cases rule: validate_parsed_cases
      [where cfg = cfg and e = e and w = w and raw = email and email = "normalize email"
         and l = l and d = d and ?c0.0 = c0 and timeout = timeout and do_smtp = do_smtp
         and accept_all_note = accept_all_note])
    case (no_mx hosts pg w1)
    with syn q show ?thesis by (intro that(2) [of l d hosts pg w1]) (simp_all add: c_def p(4))
  next
    case (not_probed hosts pg w1)
    with syn q show ?thesis by (intro that(3) [of l d hosts pg w1]) (simp_all add: c_def p(4))
  next
    case (blocked hosts pg w1)
    with syn q show ?thesis by (intro that(4) [of l d hosts pg w1]) (simp_all add: c_def p(4))
  next
    case (inconclusive hosts pg w1 nt w2)
    with syn q show ?thesis
      by (intro that(5) [of l d hosts pg w1 nt w2]) (simp_all add: c_def p(4))
  next
    case (rejected hosts pg w1 nt w2)
    with syn q show ?thesis
      by (intro that(6) [of l d hosts pg w1 nt w2]) (simp_all add: c_def p(4))
  next
    case (accept_all hosts pg w1 nt w2 w3)
    with syn q show ?thesis
      by (intro that(7) [of l d hosts pg w1 nt w2 w3]) (simp_all add: c_def p(4))
  next
    case (valid hosts pg w1 nt w2 aa w3)
    with syn q show ?thesis
      by (intro that(8) [of l d hosts pg w1 nt w2 aa w3]) (simp_all add: c_def p(4))
  qed
qed


lemma fallback_result_email: "r_email (fallback_result raw c pg bn sg u nt) = raw"
  by (simp add: fallback_result_def Let_def)

lemma fallback_result_reason:
  "r_reason (fallback_result raw c pg bn sg u nt) =
     (if u \<or> (truthy bn \<and> \<not> chk_smtp_checked c) then ''unverifiable'' else ''dns-only'')"
  by (simp add: fallback_result_def Let_def)

lemma blocklist_lookup_name:
  "blocklist_lookup xs d = Some n \<Longrightarrow> n \<in> snd ` set xs"
  by (induction xs) (auto split: if_splits)

lemma provider_blocks_smtp_truthy: "truthy (provider_blocks_smtp d) = (provider_blocks_smtp d \<noteq> None)"
proof (cases "provider_blocks_smtp d")
  case None
  then show ?thesis by (simp add: truthy_def)
next
  case (Some n)
  then have "n \<in> snd ` set SMTP_BLOCKLIST_PROVIDERS"
    unfolding provider_blocks_smtp_def by (rule blocklist_lookup_name)
  then have "n \<noteq> []" by (auto simp: SMTP_BLOCKLIST_PROVIDERS_def)
  with Some show ?thesis by (simp add: truthy_def)
qed

lemma check_mx_connections: "connections (snd (check_mx e w d timeout)) = connections w"
  by (simp add: check_mx_def Let_def split: option.splits sum.splits)

section \<open>Status and verdict\<close>

text \<open>
  Claim C10. For every input string, configuration, environment and state,
  \<open>validate_email_record\<close> returns a record, and the \<open>status\<close> of that record is
  its \<open>verdict\<close>, whichever branch returned it.
\<close>

theorem status_equals_verdict:
  "\<exists>r. fst (validate_email_record cfg e w email timeout do_smtp accept_all_note) = Inr r
     \<and> r_status r = r_verdict r"
  by (cases rule: verdict_cases [of cfg e w email timeout do_smtp accept_all_note])
     (simp_all add: fallback_result_score)

section \<open>No exception reaches the caller\<close>

text \<open>
  Claim C2. For every input string and every \<open>timeout\<close>, \<open>do_smtp\<close> and
  \<open>accept_all_note\<close>, in every environment (whatever the resolver and the servers
  raise) \<open>validate_email_record\<close> returns a record with the keys \<open>email\<close>,
  \<open>verdict\<close>, \<open>status\<close>, \<open>score\<close>, \<open>checks\<close>, \<open>provider\<close>, \<open>suggestion\<close> and
  \<open>reason\<close>, whose \<open>email\<close> is the input; no exception reaches the caller.
\<close>

theorem never_raises:
  "\<exists>r. fst (validate_email_record cfg e w email timeout do_smtp accept_all_note) = Inr r
     \<and> r_email r = email"
  by (cases rule: verdict_cases [of cfg e w email timeout do_smtp accept_all_note])
     (simp_all add: fallback_result_email)

section \<open>The fallback score\<close>

lemma fallback_result_scored:
  assumes "r = fallback_result raw c pg bn sg u nt"
  shows "r_verdict r = ''risky'' \<and>
     r_score r = round3 (max 0 (min 0.89 (0.62
        - (if chk_is_disposable (r_checks r) then 0.22 else 0)
        - (if chk_is_role_address (r_checks r) then 0.12 else 0)
        - (if chk_is_free_provider (r_checks r) then 0.03 else 0)
        - (if chk_is_accept_all (r_checks r) = Some True then 0.18 else 0)
        - (if r_reason r = ''unverifiable'' then 0.08 else 0))))"
proof -
  have h1: "r_verdict r = ''risky''" and h2: "r_checks r = c"
    and h3: "r_score r = round3 (fallback_risky_score c (r_reason r = ''unverifiable''))"
    using fallback_result_score [of raw c pg bn sg u nt] unfolding assms by blast+
  show ?thesis
    unfolding h2 using h1 h3 [unfolded fallback_risky_score_eq] by (rule conjI)
qed

text \<open>
  Claim C7. On the fallback path (the one that gives the reasons \<open>unverifiable\<close> and
  \<open>dns-only\<close>) the verdict is \<open>risky\<close> and the score is 0.62, less 0.22 if
  disposable, 0.12 if a role account, 0.03 if a free provider, 0.18 if the accept-all
  flag is true and 0.08 if unverifiable, clamped to \<open>[0, 0.89]\<close> and rounded to three
  decimals.
\<close>

theorem fallback_score:
  assumes "fst (validate_email_record cfg e w email timeout do_smtp accept_all_note) = Inr r"
    and "r_reason r = ''unverifiable'' \<or> r_reason r = ''dns-only''"
  shows "r_verdict r = ''risky'' \<and>
     r_score r = round3 (max 0 (min 0.89 (0.62
        - (if chk_is_disposable (r_checks r) then 0.22 else 0)
        - (if chk_is_role_address (r_checks r) then 0.12 else 0)
        - (if chk_is_free_provider (r_checks r) then 0.03 else 0)
        - (if chk_is_accept_all (r_checks r) = Some True then 0.18 else 0)
        - (if r_reason r = ''unverifiable'' then 0.08 else 0))))"
proof (cases rule: verdict_cases [of cfg e w email timeout do_smtp accept_all_note])
  case (bad_syntax ok lp dm)
  with assms have False by auto
  then show ?thesis ..
next
  case (no_mx l d hosts pg w1)
  with assms have False by auto
  then show ?thesis ..
next
  case (not_probed l d hosts pg w1)
  with assms(1) show ?thesis by (intro fallback_result_scored) (simp, erule sym)
next
  case (blocked l d hosts pg w1)
  with assms(1) show ?thesis by (intro fallback_result_scored) (simp, erule sym)
next
  case (inconclusive l d hosts pg w1 nt w2)
  with assms(1) show ?thesis by (intro fallback_result_scored) (simp, erule sym)
next
  case (rejected l d hosts pg w1 nt w2)
  with assms have False by auto
  then show ?thesis ..
next
  case (accept_all l d hosts pg w1 nt w2 w3)
  with assms have False by auto
  then show ?thesis ..
next
  case (valid l d hosts pg w1 nt w2 aa w3)
  with assms have False by auto
  then show ?thesis ..
qed

text \<open>
  A run through the fallback: \<open>admin@gmail.com\<close> with probing off is a role account at
  a free provider that refuses verification.
\<close>

theorem fallback_score_witness:
  "fst (validate_email_record default_config (env_with 250) fresh ''admin@gmail.com'' 6 False True) =
     Inr \<lparr>r_email = ''admin@gmail.com'', r_verdict = ''risky'', r_status = ''risky'',
          r_score = 0.39,
          r_checks = \<lparr>chk_has_valid_address_syntax = True, chk_has_mx_or_a_record = True,
                      chk_is_disposable = False, chk_is_role_address = True,
                      chk_is_free_provider = True, chk_is_accept_all = None,
                      chk_smtp_checked = False, chk_smtp_deliverable = False,
                      chk_domain = Some ''gmail.com''\<rparr>,
          r_provider = Some ''Google Workspace/Gmail'', r_suggestion = Some ''gmail.com'',
          r_reason = ''unverifiable''\<rparr>
   \<and> (0.39 :: real) = round3 (max 0 (min 0.89 (0.62 - 0 - 0.12 - 0.03 - 0 - 0.08)))"
proof -
  have run: "fst (validate_email_record default_config (env_with 250) fresh ''admin@gmail.com'' 6 False True) =
     Inr \<lparr>r_email = ''admin@gmail.com'', r_verdict = ''risky'', r_status = ''risky'',
          r_score = 0.39,
          r_checks = \<lparr>chk_has_valid_address_syntax = True, chk_has_mx_or_a_record = True,
                      chk_is_disposable = False, chk_is_role_address = True,
                      chk_is_free_provider = True, chk_is_accept_all = None,
                      chk_smtp_checked = False, chk_smtp_deliverable = False,
                      chk_domain = Some ''gmail.com''\<rparr>,
          r_provider = Some ''Google Workspace/Gmail'', r_suggestion = Some ''gmail.com'',
          r_reason = ''unverifiable''\<rparr>"
    by code_simp
  from fallback_score [OF run] run show ?thesis by simp
qed

section \<open>The exchanger cache\<close>

lemma check_mx_hit: "mx_cache w domn = Some res \<Longrightarrow> check_mx e w domn timeout = (res, w)"
  by (simp add: check_mx_def)

lemma check_mx_stores:
  "mx_cache (snd (check_mx e w domn timeout)) domn = Some (fst (check_mx e w domn timeout))"
  by (simp add: check_mx_def Let_def split: option.splits sum.splits)

text \<open>
  Claim C9. After a call of \<open>check_mx\<close> for a domain, a second call for that domain
  returns the same triple (has-exchanger, hosts, provider guess) and leaves the state
  as it is, whatever environment \<open>e2\<close> and timeout the second call runs with: the
  resolver is not asked again.
\<close>

theorem check_mx_cached:
  "check_mx e2 (snd (check_mx e1 w domn t1)) domn t2 = check_mx e1 w domn t1"
  using check_mx_hit [OF check_mx_stores, of e2 e1 w domn t1 t2] by simp

text \<open>
  A resolver that answers two exchangers, then one that raises: asked first, the second
  gives \<open>(False, [], "")\<close>; asked after the first, it is not consulted.
\<close>

theorem check_mx_cached_witness:
  "fst (check_mx (env_with 250) fresh ''example.com'' 6) = (True, [''mx1.example.com'', ''mx2.example.com''], [])
   \<and> fst (check_mx failing_resolver_env fresh ''example.com'' 6) = (False, [], [])
   \<and> fst (check_mx failing_resolver_env (snd (check_mx (env_with 250) fresh ''example.com'' 6)) ''example.com'' 8)
       = (True, [''mx1.example.com'', ''mx2.example.com''], [])"
proof -
  have a: "fst (check_mx (env_with 250) fresh ''example.com'' 6) = (True, [''mx1.example.com'', ''mx2.example.com''], [])"
    by code_simp
  have b: "fst (check_mx failing_resolver_env fresh ''example.com'' 6) = (False, [], [])"
    by code_simp
  from check_mx_cached [of failing_resolver_env "env_with 250" fresh "''example.com''" 6 8] a b
  show ?thesis by simp
qed

section \<open>Unverifiable or DNS only\<close>

text \<open>
  Claim C6 says that whenever probing is disabled the result is marked unverifiable.
  The code marks it so only for a provider of \<open>SMTP_BLOCKLIST_PROVIDERS\<close>
  (\<open>if block_name and not checks["smtp_checked"]\<close>): with probing off, an address at
  \<open>example.com\<close>, whose exchangers resolve, gets the reason \<open>dns-only\<close>.
\<close>

theorem dns_only_counterexample:
  "fst (validate_email_record default_config (env_with 250) fresh ''user@example.com'' 6 False True) =
     Inr \<lparr>r_email = ''user@example.com'', r_verdict = ''risky'', r_status = ''risky'',
          r_score = 0.62,
          r_checks = \<lparr>chk_has_valid_address_syntax = True, chk_has_mx_or_a_record = True,
                      chk_is_disposable = False, chk_is_role_address = False,
                      chk_is_free_provider = False, chk_is_accept_all = None,
                      chk_smtp_checked = False, chk_smtp_deliverable = False,
                      chk_domain = Some ''example.com''\<rparr>,
          r_provider = None, r_suggestion = None, r_reason = ''dns-only''\<rparr>"
  by code_simp

text \<open>
  Claim C6, amended. For a syntactically valid address at a domain with exchangers:
  when probing is disabled by the caller or globally, the verdict is \<open>risky\<close>, and
  the reason is \<open>unverifiable\<close> if the provider is on the refuse-to-verify list and
  \<open>dns-only\<close> otherwise; when probing is enabled, the provider is on that list and
  \<open>PROBE_BLOCKED\<close> is off, the verdict is \<open>risky\<close> with the reason
  \<open>unverifiable\<close>, and no connection is opened.
\<close>

theorem unverifiable_or_dns_only:
  assumes "check_syntax (validate_email e) (normalize email) = (True, Some l, Some d)"
    and "l \<noteq> []" and "d \<noteq> []"
    and "fst (fst (check_mx e w d timeout))"
  shows
    "(\<not> (do_smtp \<and> ALLOW_SMTP_PROBE cfg) \<longrightarrow>
        (\<exists>r. fst (validate_email_record cfg e w email timeout do_smtp accept_all_note) = Inr r
           \<and> r_verdict r = ''risky''
           \<and> r_reason r = (if provider_blocks_smtp d = None then ''dns-only'' else ''unverifiable'')))
     \<and> (do_smtp \<and> ALLOW_SMTP_PROBE cfg \<and> provider_blocks_smtp d \<noteq> None \<and> \<not> PROBE_BLOCKED cfg \<longrightarrow>
        (\<exists>r. fst (validate_email_record cfg e w email timeout do_smtp accept_all_note) = Inr r
           \<and> r_verdict r = ''risky'' \<and> r_reason r = ''unverifiable''
           \<and> connections (snd (validate_email_record cfg e w email timeout do_smtp accept_all_note))
               = connections w))"
proof (cases rule: verdict_cases [of cfg e w email timeout do_smtp accept_all_note])
  case (bad_syntax ok lp dm)
  with assms show ?thesis by (simp add: truthy_def)
next
  case (no_mx l' d' hosts pg w1)
  with assms show ?thesis by simp
next
  case (not_probed l' d' hosts pg w1)
  with assms show ?thesis
    by (auto simp: fallback_result_score fallback_result_reason provider_blocks_smtp_truthy)
next
  case (blocked l' d' hosts pg w1)
  with assms check_mx_connections [of e w d timeout] show ?thesis
    by (auto simp: fallback_result_score fallback_result_reason)
next
  case (inconclusive l' d' hosts pg w1 nt w2)
  with assms show ?thesis by (auto simp: provider_blocks_smtp_truthy)
next
  case (rejected l' d' hosts pg w1 nt w2)
  with assms show ?thesis by (auto simp: provider_blocks_smtp_truthy)
next
  case (accept_all l' d' hosts pg w1 nt w2 w3)
  with assms show ?thesis by (auto simp: provider_blocks_smtp_truthy)
next
  case (valid l' d' hosts pg w1 nt w2 aa w3)
  with assms show ?thesis by (auto simp: provider_blocks_smtp_truthy)
qed

text \<open>Both parts at \<open>user@gmail.com\<close>, with \<open>PROBE_BLOCKED\<close> off.\<close>

theorem unverifiable_or_dns_only_witness:
  "(\<exists>r. fst (validate_email_record skip_refusing_config (env_with 250) fresh ''user@gmail.com'' 6 False True) = Inr r
      \<and> r_verdict r = ''risky'' \<and> r_reason r = ''unverifiable'')
   \<and> (\<exists>r. fst (validate_email_record skip_refusing_config (env_with 250) fresh ''user@gmail.com'' 6 True True) = Inr r
      \<and> r_verdict r = ''risky'' \<and> r_reason r = ''unverifiable''
      \<and> connections (snd (validate_email_record skip_refusing_config (env_with 250) fresh ''user@gmail.com'' 6 True True)) = 0)"
proof -
  have syn: "check_syntax (validate_email (env_with 250)) (normalize ''user@gmail.com'') =
      (True, Some ''user'', Some ''gmail.com'')"
    by code_simp
  have mx: "fst (fst (check_mx (env_with 250) fresh ''gmail.com'' 6))"
    by code_simp
  have bn: "provider_blocks_smtp ''gmail.com'' = Some ''Google Workspace/Gmail''"
    by code_simp
  have cfg: "ALLOW_SMTP_PROBE skip_refusing_config" "\<not> PROBE_BLOCKED skip_refusing_config"
    by (simp_all add: skip_refusing_config_def default_config_def)
  have fr: "connections fresh = 0" by (simp add: fresh_def)
  note t = unverifiable_or_dns_only [OF syn _ _ mx, where cfg = skip_refusing_config
      and accept_all_note = True]
  from t [where do_smtp = False] t [where do_smtp = True] show ?thesis
    by (simp add: bn cfg fr)
qed


section \<open>Accept-all and valid\<close>

text \<open>
  Claim C1 says that an accepted probe followed by a detector that returns True gives
  \<open>risky\<close> whatever \<open>accept_all_note\<close> is. The code tests \<open>aa is True and
  accept_all_note\<close>: with \<open>accept_all_note = False\<close>, servers that accept every
  recipient (so the probe is accepted and the detector returns True, as
  \<open>chk_is_accept_all\<close> shows) give the verdict \<open>valid\<close>.
\<close>

theorem valid_despite_accept_all_counterexample:
  "fst (validate_email_record default_config (env_with 250) fresh ''user@example.com'' 6 True False) =
     Inr \<lparr>r_email = ''user@example.com'', r_verdict = ''valid'', r_status = ''valid'',
          r_score = 0.95,
          r_checks = \<lparr>chk_has_valid_address_syntax = True, chk_has_mx_or_a_record = True,
                      chk_is_disposable = False, chk_is_role_address = False,
                      chk_is_free_provider = False, chk_is_accept_all = Some True,
                      chk_smtp_checked = True, chk_smtp_deliverable = True,
                      chk_domain = Some ''example.com''\<rparr>,
          r_provider = None, r_suggestion = None, r_reason = ''smtp-250''\<rparr>"
  by code_simp

text \<open>
  Claim C1, amended. When the transport probe of an address returns Accepted, the
  detector then returns True and \<open>accept_all_note\<close> is true, the result is
  \<open>risky\<close> with the reason \<open>accept-all\<close> and the score 0.74. And a result with the
  verdict \<open>valid\<close> has the reason \<open>smtp-250\<close> and the score 0.95, and comes only
  from a run whose probe returned Accepted and in which the detector did not return
  True or \<open>accept_all_note\<close> was false.
\<close>

theorem accept_all_or_valid:
  "(\<forall>l d hosts pg w1 nt w2.
       check_syntax (validate_email e) (normalize email) = (True, Some l, Some d)
       \<and> l \<noteq> [] \<and> d \<noteq> []
       \<and> check_mx e w d timeout = ((True, hosts, pg), w1)
       \<and> do_smtp \<and> ALLOW_SMTP_PROBE cfg
       \<and> (provider_blocks_smtp d = None \<or> PROBE_BLOCKED cfg)
       \<and> smtp_probe cfg e w1 (normalize email) hosts timeout True = ((Some True, nt), w2)
       \<and> fst (is_accept_all cfg e w2 d hosts timeout) = Some True
       \<and> accept_all_note
       \<longrightarrow> (\<exists>r. fst (validate_email_record cfg e w email timeout do_smtp accept_all_note) = Inr r
              \<and> r_verdict r = ''risky'' \<and> r_reason r = ''accept-all'' \<and> r_score r = 0.74))
   \<and> (\<forall>r. fst (validate_email_record cfg e w email timeout do_smtp accept_all_note) = Inr r
          \<and> r_verdict r = ''valid''
       \<longrightarrow> r_reason r = ''smtp-250'' \<and> r_score r = 0.95
           \<and> (\<exists>l d hosts pg w1 nt w2.
                 check_syntax (validate_email e) (normalize email) = (True, Some l, Some d)
                 \<and> check_mx e w d timeout = ((True, hosts, pg), w1)
                 \<and> do_smtp \<and> ALLOW_SMTP_PROBE cfg
                 \<and> smtp_probe cfg e w1 (normalize email) hosts timeout True = ((Some True, nt), w2)
                 \<and> \<not> (fst (is_accept_all cfg e w2 d hosts timeout) = Some True \<and> accept_all_note)))"
proof (cases rule: verdict_cases [of cfg e w email timeout do_smtp accept_all_note])
  case (bad_syntax ok lp dm)
  then show ?thesis by (auto simp: truthy_def)
next
  case (no_mx l' d' hosts pg w1)
  then show ?thesis by auto
next
  case (not_probed l' d' hosts pg w1)
  then show ?thesis by (auto simp: fallback_result_score)
next
  case (blocked l' d' hosts pg w1)
  then show ?thesis by (auto simp: fallback_result_score provider_blocks_smtp_truthy)
next
  case (inconclusive l' d' hosts pg w1 nt w2)
  then show ?thesis by (auto simp: fallback_result_score)
next
  case (rejected l' d' hosts pg w1 nt w2)
  then show ?thesis by auto
next
  case (accept_all l' d' hosts pg w1 nt w2 w3)
  then show ?thesis by auto
next
  case (valid l' d' hosts pg w1 nt w2 aa w3)
  then show ?thesis by auto
qed


text \<open>Servers that accept every recipient, with \<open>accept_all_note\<close> true.\<close>

theorem accept_all_or_valid_witness:
  "\<exists>r. fst (validate_email_record default_config (env_with 250) fresh ''user@example.com'' 6 True True) = Inr r
       \<and> r_verdict r = ''risky'' \<and> r_reason r = ''accept-all'' \<and> r_score r = 0.74"
proof -
  define w1 where "w1 = snd (check_mx (env_with 250) fresh ''example.com'' 6)"
  define w2 where "w2 = snd (smtp_probe default_config (env_with 250) w1
      (normalize ''user@example.com'') [''mx1.example.com'', ''mx2.example.com''] 6 True)"
  have syn: "check_syntax (validate_email (env_with 250)) (normalize ''user@example.com'') =
      (True, Some ''user'', Some ''example.com'')"
    by code_simp
  have "fst (check_mx (env_with 250) fresh ''example.com'' 6) =
      (True, [''mx1.example.com'', ''mx2.example.com''], [])"
    by code_simp
  then have mx: "check_mx (env_with 250) fresh ''example.com'' 6 =
      ((True, [''mx1.example.com'', ''mx2.example.com''], []), w1)"
    unfolding w1_def by (simp add: prod_eq_iff)
  have "fst (smtp_probe default_config (env_with 250)
        (snd (check_mx (env_with 250) fresh ''example.com'' 6))
        (normalize ''user@example.com'') [''mx1.example.com'', ''mx2.example.com''] 6 True) =
      (Some True, ''smtp-250'')"
    by code_simp
  then have probe: "smtp_probe default_config (env_with 250) w1 (normalize ''user@example.com'')
      [''mx1.example.com'', ''mx2.example.com''] 6 True = ((Some True, ''smtp-250''), w2)"
    unfolding w2_def w1_def by (simp add: prod_eq_iff)
  have "fst (is_accept_all default_config (env_with 250)
        (snd (smtp_probe default_config (env_with 250)
           (snd (check_mx (env_with 250) fresh ''example.com'' 6))
           (normalize ''user@example.com'') [''mx1.example.com'', ''mx2.example.com''] 6 True))
        ''example.com'' [''mx1.example.com'', ''mx2.example.com''] 6) = Some True"
    by code_simp
  then have aa: "fst (is_accept_all default_config (env_with 250) w2 ''example.com''
      [''mx1.example.com'', ''mx2.example.com''] 6) = Some True"
    unfolding w2_def w1_def .
  have cfg: "ALLOW_SMTP_PROBE default_config" "PROBE_BLOCKED default_config"
    by (simp_all add: default_config_def)
  show ?thesis
    using accept_all_or_valid [where e = "env_with 250" and email = "''user@example.com''"
        and w = fresh and timeout = 6 and do_smtp = True and cfg = default_config
        and accept_all_note = True, THEN conjunct1, rule_format,
        of "''user''" "''example.com''" "[''mx1.example.com'', ''mx2.example.com'']" "[]" w1
        "''smtp-250''" w2]
      syn mx probe aa cfg
    by simp
qed

section \<open>The accept-all detector's answers\<close>

text \<open>
  The outcomes of \<open>n\<close> probes of random local parts at the domain, made one after
  the other from the state \<open>w\<close>: what the attempts of \<open>is_accept_all\<close> return as
  long as the loop goes on.
\<close>

fun attempt_outcomes ::
  "config \<Rightarrow> env \<Rightarrow> string \<Rightarrow> string list \<Rightarrow> real \<Rightarrow> nat \<Rightarrow> world \<Rightarrow> bool option list"
where
  "attempt_outcomes cfg e domn mx_hosts timeout 0 w = []"
| "attempt_outcomes cfg e domn mx_hosts timeout (Suc n) w =
     (let (rnd, w1) = random_local e w;
          ((ok, _), w2) = smtp_probe cfg e w1 (rnd @ ''@'' @ domn) mx_hosts timeout True
      in ok # attempt_outcomes cfg e domn mx_hosts timeout n w2)"

lemma probe_hosts_draws:
  "draws (snd (probe_hosts cfg e email timeout tls hs lr w)) = draws w"
  by (induction hs arbitrary: lr w) (auto simp: Let_def split: prod.splits attempt.splits)

lemma smtp_probe_draws:
  "draws (snd (smtp_probe cfg e w email mx_hosts timeout tls)) = draws w"
  by (simp add: smtp_probe_def probe_hosts_draws)

lemma length_attempt_outcomes:
  "length (attempt_outcomes cfg e domn mx_hosts timeout n w) = n"
  by (induction n arbitrary: w) (auto simp: Let_def split: prod.splits)

lemma accept_all_attempts_result:
  "fst (accept_all_attempts cfg e domn mx_hosts timeout n successes w) =
     (let outs = attempt_outcomes cfg e domn mx_hosts timeout n w
      in if None \<in> set outs then None
         else Some (successes + length (filter (\<lambda>ok. ok = Some True) outs)))"
proof (induction n arbitrary: successes w)
  case 0
  show ?case by simp
next
  case (Suc n)
  obtain rnd w1 where r: "random_local e w = (rnd, w1)" by (metis surj_pair)
  obtain ok nt w2 where p: "smtp_probe cfg e w1 (rnd @ ''@'' @ domn) mx_hosts timeout True = ((ok, nt), w2)"
    by (metis surj_pair)
  show ?case
  proof (cases ok)
    case None
    with r p show ?thesis by simp
  next
    case (Some b)
    with r p Suc.IH [of _ w2] show ?thesis by (cases b) (simp_all add: Let_def)
  qed
qed

lemma accept_all_attempts_draws:
  "draws (snd (accept_all_attempts cfg e domn mx_hosts timeout n successes w)) =
     (let outs = attempt_outcomes cfg e domn mx_hosts timeout n w
      in if None \<in> set outs
         then draws w + Suc (length (takeWhile (\<lambda>ok. ok \<noteq> None) outs))
         else draws w + n)"
proof (induction n arbitrary: successes w)
  case 0
  show ?case by simp
next
  case (Suc n)
  obtain rnd w1 where r: "random_local e w = (rnd, w1)" by (metis surj_pair)
  obtain ok nt w2 where p: "smtp_probe cfg e w1 (rnd @ ''@'' @ domn) mx_hosts timeout True = ((ok, nt), w2)"
    by (metis surj_pair)
  from r have d1: "draws w1 = Suc (draws w)" by (auto simp: random_local_def)
  from p smtp_probe_draws [of cfg e w1 "rnd @ ''@'' @ domn" mx_hosts timeout True]
  have d2: "draws w2 = draws w1" by simp
  have outs: "attempt_outcomes cfg e domn mx_hosts timeout (Suc n) w =
      ok # attempt_outcomes cfg e domn mx_hosts timeout n w2"
    using r p by simp
  show ?case
  proof (cases ok)
    case None
    with r p d1 d2 show ?thesis by simp
  next
    case (Some b)
    have "\<exists>s'. accept_all_attempts cfg e domn mx_hosts timeout (Suc n) successes w =
        accept_all_attempts cfg e domn mx_hosts timeout n s' w2"
      using r p Some by (cases b) auto
    then obtain s' where loop: "accept_all_attempts cfg e domn mx_hosts timeout (Suc n) successes w =
        accept_all_attempts cfg e domn mx_hosts timeout n s' w2" ..
    show ?thesis
      unfolding loop outs Suc.IH [of s' w2] using Some d1 d2 by (simp add: Let_def)
  qed
qed

lemma all_accepted_iff:
  "None \<notin> set outs \<Longrightarrow>
   (length (filter (\<lambda>ok. ok = Some True) outs) = length outs) = list_all (\<lambda>ok. ok = Some True) outs"
proof (induction outs)
  case Nil
  show ?case by simp
next
  case (Cons a outs)
  have le: "length (filter (\<lambda>ok. ok = Some True) outs) \<le> length outs"
    by (rule length_filter_le)
  show ?case
  proof (cases "a = Some True")
    case True
    with Cons show ?thesis by simp
  next
    case False
    with le have "length (filter (\<lambda>ok. ok = Some True) (a # outs)) \<noteq> length (a # outs)"
      by (simp del: length_filter_le)
    with False show ?thesis by simp
  qed
qed

lemma all_rejected_iff:
  "None \<notin> set outs \<Longrightarrow>
   (length (filter (\<lambda>ok. ok = Some True) outs) = 0) = list_all (\<lambda>ok. ok = Some False) outs"
proof (induction outs)
  case Nil
  show ?case by simp
next
  case (Cons a outs)
  then show ?case by (cases a) auto
qed

text \<open>
  Claim C3. With no host \<open>is_accept_all\<close> returns None and leaves the state as it
  is (no probe, no random draw). With hosts, and whatever the attempts return: if an
  attempt is inconclusive the result is None, and the attempts stop with that one (as
  many local parts were drawn as there are attempts up to it); otherwise the result is
  True if every attempt was accepted, False if every attempt was rejected, and None for
  a mix of both.
\<close>

theorem is_accept_all_outcomes:
  "(mx_hosts = [] \<longrightarrow> is_accept_all cfg e w domn mx_hosts timeout = (None, w))
   \<and> (mx_hosts \<noteq> [] \<longrightarrow>
        (let n = nat (max 1 (ACCEPT_ALL_PROBES cfg));
             outs = attempt_outcomes cfg e domn mx_hosts timeout n w
         in fst (is_accept_all cfg e w domn mx_hosts timeout) =
              (if None \<in> set outs then None
               else if list_all (\<lambda>ok. ok = Some True) outs then Some True
               else if list_all (\<lambda>ok. ok = Some False) outs then Some False
               else None)
            \<and> draws (snd (is_accept_all cfg e w domn mx_hosts timeout)) =
              (if None \<in> set outs
               then draws w + Suc (length (takeWhile (\<lambda>ok. ok \<noteq> None) outs))
               else draws w + n)))"
proof (intro conjI impI)
  assume "mx_hosts = []"
  then show "is_accept_all cfg e w domn mx_hosts timeout = (None, w)"
    by (simp add: is_accept_all_def)
next
  assume hosts: "mx_hosts \<noteq> []"
  define n where "n = nat (max 1 (ACCEPT_ALL_PROBES cfg))"
  define outs where "outs = attempt_outcomes cfg e domn mx_hosts timeout n w"
  define loop where "loop = accept_all_attempts cfg e domn mx_hosts timeout n 0 w"
  have len: "length outs = n" by (simp add: outs_def length_attempt_outcomes)
  have n: "0 < n" by (simp add: n_def)
  have res: "fst loop = (if None \<in> set outs then None
      else Some (length (filter (\<lambda>ok. ok = Some True) outs)))"
    unfolding loop_def outs_def by (simp add: accept_all_attempts_result Let_def)
  have drw: "draws (snd loop) = (if None \<in> set outs
      then draws w + Suc (length (takeWhile (\<lambda>ok. ok \<noteq> None) outs)) else draws w + n)"
    unfolding loop_def outs_def by (simp add: accept_all_attempts_draws Let_def)
  have unf: "is_accept_all cfg e w domn mx_hosts timeout =
      (case fst loop of
         None \<Rightarrow> (None, snd loop)
       | Some successes \<Rightarrow>
           if successes = n then (Some True, snd loop)
           else if successes = 0 then (Some False, snd loop)
           else (None, snd loop))"
    unfolding loop_def n_def using hosts
    by (auto simp: is_accept_all_def Let_def split: prod.splits option.splits)
  have a: "fst (is_accept_all cfg e w domn mx_hosts timeout) =
      (if None \<in> set outs then None
       else if list_all (\<lambda>ok. ok = Some True) outs then Some True
       else if list_all (\<lambda>ok. ok = Some False) outs then Some False
       else None)"
  proof (cases "None \<in> set outs")
    case True
    then show ?thesis by (simp add: unf res)
  next
    case False
    with all_accepted_iff [OF False] all_rejected_iff [OF False] len n show ?thesis
      by (auto simp: unf res)
  qed
  have b: "draws (snd (is_accept_all cfg e w domn mx_hosts timeout)) =
      (if None \<in> set outs
       then draws w + Suc (length (takeWhile (\<lambda>ok. ok \<noteq> None) outs)) else draws w + n)"
    using drw by (simp add: unf split: option.splits)
  from a b show "let n = nat (max 1 (ACCEPT_ALL_PROBES cfg));
         outs = attempt_outcomes cfg e domn mx_hosts timeout n w
     in fst (is_accept_all cfg e w domn mx_hosts timeout) =
          (if None \<in> set outs then None
           else if list_all (\<lambda>ok. ok = Some True) outs then Some True
           else if list_all (\<lambda>ok. ok = Some False) outs then Some False
           else None)
        \<and> draws (snd (is_accept_all cfg e w domn mx_hosts timeout)) =
          (if None \<in> set outs
           then draws w + Suc (length (takeWhile (\<lambda>ok. ok \<noteq> None) outs))
           else draws w + n)"
    unfolding Let_def n_def [symmetric] outs_def [symmetric] by (rule conjI)
qed


text \<open>
  Two attempts against one host: an inconclusive first attempt ends the loop after one
  draw; an accepted and a rejected attempt give None after two.
\<close>

theorem is_accept_all_outcomes_witness:
  "attempt_outcomes default_config (scripted_env [450, 250]) ''example.com'' [''mx1.example.com''] 6 2 fresh
     = [None, Some True]
   \<and> fst (is_accept_all default_config (scripted_env [450, 250]) fresh ''example.com''
          [''mx1.example.com''] 6) = None
   \<and> draws (snd (is_accept_all default_config (scripted_env [450, 250]) fresh ''example.com''
          [''mx1.example.com''] 6)) = 1
   \<and> attempt_outcomes default_config (scripted_env [250, 550]) ''example.com'' [''mx1.example.com''] 6 2 fresh
     = [Some True, Some False]
   \<and> fst (is_accept_all default_config (scripted_env [250, 550]) fresh ''example.com''
          [''mx1.example.com''] 6) = None
   \<and> draws (snd (is_accept_all default_config (scripted_env [250, 550]) fresh ''example.com''
          [''mx1.example.com''] 6)) = 2"
proof -
  have n: "nat (max 1 (ACCEPT_ALL_PROBES default_config)) = 2"
    by (simp add: default_config_def)
  have o1: "attempt_outcomes default_config (scripted_env [450, 250]) ''example.com''
      [''mx1.example.com''] 6 2 fresh = [None, Some True]"
    by code_simp
  have o2: "attempt_outcomes default_config (scripted_env [250, 550]) ''example.com''
      [''mx1.example.com''] 6 2 fresh = [Some True, Some False]"
    by code_simp
  have d: "draws fresh = 0" by (simp add: fresh_def)
  note t = is_accept_all_outcomes [where cfg = default_config and w = fresh
      and domn = "''example.com''" and mx_hosts = "[''mx1.example.com'']" and timeout = 6,
      THEN conjunct2, rule_format, unfolded Let_def n]
  from t [where e = "scripted_env [450, 250]"] t [where e = "scripted_env [250, 550]"]
  show ?thesis
    by (simp add: o1 o2 d)
qed

section \<open>The hosts of a probe\<close>















section \<open>Malformed input\<close>





















section \<open>The typo suggestion\<close>

text \<open>
  Claim C5 says that \<open>typo_suggestion\<close> never returns its input, and that it returns
  none for \<open>gmail.com\<close>. The code does not: \<open>gmail.com\<close> is no key of the
  misspelling table, \<open>COMMON_DOMAINS\<close> holds the correct domains too, and the input is
  not taken out of the candidates of \<open>get_close_matches\<close>, where it matches itself
  with the ratio 1. So \<open>typo_suggestion("gmail.com")\<close> returns \<open>gmail.com\<close>, and so
  it does in capitals, since the code lower-cases the input first.
\<close>

theorem typo_suggestion_gmail_com:
  "typo_suggestion ''gmail.com'' = Some ''gmail.com''
   \<and> typo_suggestion ''GMAIL.COM'' = Some ''gmail.com''"
  by code_simp

text \<open>The misspelling table gives what the claim says of \<open>gmail.co\<close>.\<close>

lemma typo_suggestion_gmail_co: "typo_suggestion ''gmail.co'' = Some ''gmail.com''"
  by code_simp

end
